theory Spec2Isabelle
  imports Main
begin

section \<open>JavaScript values\<close>

text \<open>
  The controller works on REST-format queries, update payloads and store documents: plain
  JavaScript values. An object is an association list in insertion order with distinct
  keys. Numbers are integers here (the code under study never does arithmetic on them).
  Property lookup sees own properties only (no prototype methods), and integer-like keys
  of an object are not moved to the front as a JavaScript engine would do.
\<close>

datatype json =
    JUndefined
  | JNull
  | JBool bool
  | JNum int
  | JStr string
  | JArr "json list"
  | JObj "(string \<times> json) list"

type_synonym obj = "(string \<times> json) list"

text \<open>Truthiness, as tested by \<^verbatim>\<open>if (x)\<close>, \<^verbatim>\<open>!x\<close>, \<^verbatim>\<open>x || y\<close> and \<^verbatim>\<open>x && y\<close>.\<close>

fun truthy :: "json \<Rightarrow> bool" where
  "truthy JUndefined = False"
| "truthy JNull = False"
| "truthy (JBool b) = b"
| "truthy (JNum n) = (n \<noteq> 0)"
| "truthy (JStr s) = (s \<noteq> [])"
| "truthy (JArr xs) = True"
| "truthy (JObj kvs) = True"

text \<open>\<^verbatim>\<open>o[k]\<close>, \<^verbatim>\<open>o[k] = v\<close> and \<^verbatim>\<open>delete o[k]\<close> on an object.\<close>

definition obj_get :: "obj \<Rightarrow> string \<Rightarrow> json" where
  "obj_get kvs k = (case map_of kvs k of None \<Rightarrow> JUndefined | Some v \<Rightarrow> v)"

fun obj_set :: "obj \<Rightarrow> string \<Rightarrow> json \<Rightarrow> obj" where
  "obj_set [] k v = [(k, v)]"
| "obj_set ((k', v') # kvs) k v =
     (if k' = k then (k, v) # kvs else (k', v') # obj_set kvs k v)"

definition obj_delete :: "obj \<Rightarrow> string \<Rightarrow> obj" where
  "obj_delete kvs k = filter (\<lambda>kv. fst kv \<noteq> k) kvs"

text \<open>Decimal numerals, for array indices and for \<^verbatim>\<open>String(n)\<close>.\<close>

fun digits :: "nat \<Rightarrow> string" where
  "digits n =
     (if n < 10 then [''0123456789'' ! n]
      else digits (n div 10) @ [''0123456789'' ! (n mod 10)])"

declare digits.simps [simp del]

definition string_of_int :: "int \<Rightarrow> string" where
  "string_of_int i = (if i < 0 then CHR ''-'' # digits (nat (- i)) else digits (nat i))"

fun join :: "string \<Rightarrow> string list \<Rightarrow> string" where
  "join sep [] = []"
| "join sep [s] = s"
| "join sep (s # t # ss) = s @ sep @ join sep (t # ss)"

text \<open>
  \<^verbatim>\<open>String(v)\<close>. An array is joined with commas, \<^verbatim>\<open>null\<close> and \<^verbatim>\<open>undefined\<close>
  elements giving the empty string.
\<close>

fun js_string :: "json \<Rightarrow> string" where
  "js_string JUndefined = ''undefined''"
| "js_string JNull = ''null''"
| "js_string (JBool b) = (if b then ''true'' else ''false'')"
| "js_string (JNum n) = string_of_int n"
| "js_string (JStr s) = s"
| "js_string (JArr xs) =
     join '','' (map (\<lambda>x. if x = JUndefined \<or> x = JNull then [] else js_string x) xs)"
| "js_string (JObj kvs) = ''[object Object]''"

text \<open>
  \<^verbatim>\<open>v == 'lit'\<close> for the literals the controller compares with (\<^verbatim>\<open>'AddRelation'\<close>,
  \<^verbatim>\<open>'RemoveRelation'\<close>, \<^verbatim>\<open>'Batch'\<close>, \<^verbatim>\<open>'Pointer'\<close>): none of them is numeric, so a
  number or a boolean never equals them; an array is compared through its string.
\<close>

fun loose_eq :: "json \<Rightarrow> string \<Rightarrow> bool" where
  "loose_eq (JStr s) lit = (s = lit)"
| "loose_eq (JArr xs) lit = (js_string (JArr xs) = lit)"
| "loose_eq (JObj kvs) lit = (''[object Object]'' = lit)"
| "loose_eq v lit = False"

text \<open>The own enumerable entries of a value: \<^verbatim>\<open>Object.keys\<close> lists their keys.\<close>

definition indexed :: "'a list \<Rightarrow> (string \<times> 'a) list" where
  "indexed xs = zip (map digits [0 ..< length xs]) xs"

datatype error =
    InvalidClassName string
  | ObjectNotFound
  | PermissionDenied
  | TypeError
  | StoreError int string
  | OtherError string

fun entries :: "json \<Rightarrow> error + obj" where
  "entries JUndefined = Inl TypeError"
| "entries JNull = Inl TypeError"
| "entries (JBool b) = Inr []"
| "entries (JNum n) = Inr []"
| "entries (JStr s) = Inr (indexed (map (\<lambda>c. JStr [c]) s))"
| "entries (JArr xs) = Inr (indexed xs)"
| "entries (JObj kvs) = Inr kvs"

definition object_keys :: "json \<Rightarrow> error + string list" where
  "object_keys v = (case entries v of Inl e \<Rightarrow> Inl e | Inr kvs \<Rightarrow> Inr (map fst kvs))"

text \<open>
  \<^verbatim>\<open>v[k]\<close> and \<^verbatim>\<open>v.k\<close>: a TypeError on \<^verbatim>\<open>null\<close> and \<^verbatim>\<open>undefined\<close>, the own
  property or \<^verbatim>\<open>undefined\<close> otherwise (\<^verbatim>\<open>length\<close> for strings and arrays).
\<close>

fun member :: "json \<Rightarrow> string \<Rightarrow> error + json" where
  "member JUndefined k = Inl TypeError"
| "member JNull k = Inl TypeError"
| "member (JBool b) k = Inr JUndefined"
| "member (JNum n) k = Inr JUndefined"
| "member (JStr s) k =
     Inr (if k = ''length'' then JNum (int (length s))
          else obj_get (indexed (map (\<lambda>c. JStr [c]) s)) k)"
| "member (JArr xs) k =
     Inr (if k = ''length'' then JNum (int (length xs)) else obj_get (indexed xs) k)"
| "member (JObj kvs) k = Inr (obj_get kvs k)"

text \<open>\<^verbatim>\<open>v[k]\<close> where \<^verbatim>\<open>v\<close> has been tested to be truthy (so it is not nullish).\<close>

definition get :: "json \<Rightarrow> string \<Rightarrow> json" where
  "get v k = (case member v k of Inl e \<Rightarrow> JUndefined | Inr x \<Rightarrow> x)"

text \<open>\<^verbatim>\<open>for (var x of v)\<close>: arrays and strings are iterable, nothing else is.\<close>

fun iterate :: "json \<Rightarrow> error + json list" where
  "iterate (JArr xs) = Inr xs"
| "iterate (JStr s) = Inr (map (\<lambda>c. JStr [c]) s)"
| "iterate v = Inl TypeError"

text \<open>\<^verbatim>\<open>v.map(r => r.k)\<close>: only an array has \<^verbatim>\<open>map\<close>.\<close>

fun members :: "json list \<Rightarrow> string \<Rightarrow> error + json list" where
  "members [] k = Inr []"
| "members (r # rs) k =
     (case member r k of
        Inl e \<Rightarrow> Inl e
      | Inr x \<Rightarrow> (case members rs k of Inl e \<Rightarrow> Inl e | Inr xs \<Rightarrow> Inr (x # xs)))"

fun map_member :: "json \<Rightarrow> string \<Rightarrow> error + json list" where
  "map_member (JArr rs) k = members rs k"
| "map_member v k = Inl TypeError"

text \<open>
  \<^verbatim>\<open>v.concat(ids)\<close> with \<^verbatim>\<open>ids\<close> an array: an array is extended, a string is
  extended by \<^verbatim>\<open>String(ids)\<close>, and nothing else has \<^verbatim>\<open>concat\<close>.
\<close>

fun concat_ids :: "json \<Rightarrow> json list \<Rightarrow> error + json" where
  "concat_ids (JArr xs) ids = Inr (JArr (xs @ ids))"
| "concat_ids (JStr s) ids = Inr (JStr (s @ js_string (JArr ids)))"
| "concat_ids v ids = Inl TypeError"

section \<open>The storage driver, the schema and the translators\<close>

text \<open>
  The calls that reach the driver's collection objects, each on a named collection, and
  the log a spy adapter keeps: every call with its outcome, and every read of the schema
  collection by \<^verbatim>\<open>Schema.load\<close>.
\<close>

datatype call =
    RawFind string json json
  | RawCount string json json
  | CreateIndex string json
  | FindAndModify string json json json json
  | Insert string json
  | UpdateDocs string json json json
  | Remove string json

datatype event = SchemaLoad | Call call "error + json"

text \<open>The argument of \<^verbatim>\<open>hasKeys\<close>: an array or a \<^verbatim>\<open>Set\<close>, of strings or of sets.\<close>

datatype keyset = Key string | KeySet "keyset list"

text \<open>
  Modelled from the spec: the schema object of \<^verbatim>\<open>Schema.js\<close>, which is not among the
  sources. It answers the declared type of a field (\<^verbatim>\<open>undefined\<close> when unknown), whether
  a set of keys is known, and whether a group may perform an action on a class.
\<close>

record schema =
  getExpectedType :: "string \<Rightarrow> string \<Rightarrow> string option"
  hasKeys :: "string \<Rightarrow> keyset list \<Rightarrow> bool"
  permits :: "string \<Rightarrow> string list \<Rightarrow> string \<Rightarrow> bool"

text \<open>
  Modelled from the spec: \<^verbatim>\<open>validatePermission(class, aclGroup, action)\<close> succeeds or
  fails with \<^verbatim>\<open>PermissionDenied\<close>.
\<close>

definition validatePermission :: "schema \<Rightarrow> string \<Rightarrow> string list \<Rightarrow> string \<Rightarrow> error + unit" where
  "validatePermission s className aclGroup action =
     (if permits s className aclGroup action then Inr () else Inl PermissionDenied)"

text \<open>
  What the controller is given and what it calls outside the sources: the collection prefix,
  \<^verbatim>\<open>Schema.classNameIsValid\<close>, the driver (its answer may depend on everything logged so
  far), \<^verbatim>\<open>Schema.load\<close>, and the translators of \<^verbatim>\<open>transform.js\<close>, each of which may
  throw.
\<close>

record env =
  collectionPrefix :: string
  classNameIsValid :: "string \<Rightarrow> bool"
  driver :: "event list \<Rightarrow> call \<Rightarrow> error + json"
  schemaLoad :: "event list \<Rightarrow> error + schema"
  transformWhere :: "schema \<Rightarrow> string \<Rightarrow> json \<Rightarrow> error + json"
  transformUpdate :: "schema \<Rightarrow> string \<Rightarrow> json \<Rightarrow> error + json"
  transformCreate :: "schema \<Rightarrow> string \<Rightarrow> json \<Rightarrow> error + json"
  transformKey :: "schema \<Rightarrow> string \<Rightarrow> string \<Rightarrow> error + string"
  transform_untransformObject :: "schema \<Rightarrow> string \<Rightarrow> json \<Rightarrow> error + json"

text \<open>
  The state an operation runs in: the log, and whether \<^verbatim>\<open>this.schemaPromise\<close> is set,
  that is, whether a schema load started by another call is in flight.
\<close>

record world =
  trace :: "event list"
  schemaPromise :: bool

text \<open>
  A promise chain run to completion: a rejection skips the remaining \<^verbatim>\<open>then\<close> steps.
  Callbacks run in the order in which their promises were created.
\<close>

type_synonym 'a io = "world \<Rightarrow> (error + 'a) \<times> world"

definition resolve :: "'a \<Rightarrow> 'a io" where
  "resolve x = (\<lambda>w. (Inr x, w))"

definition reject :: "error \<Rightarrow> 'a io" where
  "reject e = (\<lambda>w. (Inl e, w))"

definition lift :: "error + 'a \<Rightarrow> 'a io" where
  "lift r = (\<lambda>w. (r, w))"

definition and_then :: "'a io \<Rightarrow> ('a \<Rightarrow> 'b io) \<Rightarrow> 'b io" where
  "and_then m f = (\<lambda>w. case m w of (Inl e, w') \<Rightarrow> (Inl e, w') | (Inr x, w') \<Rightarrow> f x w')"

definition perform :: "env \<Rightarrow> call \<Rightarrow> json io" where
  "perform env c = (\<lambda>w.
     let r = driver env (trace w) c in (r, w\<lparr>trace := trace w @ [Call c r]\<rparr>))"

text \<open>
  \<^verbatim>\<open>Promise.all\<close> over calls that have all been started: every one reaches the driver,
  and the first failure, if any, is the outcome.
\<close>

fun perform_all :: "env \<Rightarrow> call list \<Rightarrow> json list io" where
  "perform_all env [] w = (Inr [], w)"
| "perform_all env (c # cs) w =
     (case perform env c w of (r, w1) \<Rightarrow>
        (case perform_all env cs w1 of (rs, w2) \<Rightarrow>
           ((case r of
               Inl e \<Rightarrow> Inl e
             | Inr x \<Rightarrow> (case rs of Inl e \<Rightarrow> Inl e | Inr xs \<Rightarrow> Inr (x # xs))), w2)))"

section \<open>MongoCollection\<close>

text \<open>The two patterns \<^verbatim>\<open>find\<close> matches the error message against.\<close>

definition starts_with :: "string \<Rightarrow> string \<Rightarrow> bool" where
  "starts_with p s = (take (length p) s = p)"

text \<open>\<^verbatim>\<open>/unable to find index for .geoNear/\<close>; the dot matches no line break.\<close>

definition geoNear_at :: "string \<Rightarrow> bool" where
  "geoNear_at s =
     (starts_with ''unable to find index for '' s \<and>
      (case drop (length ''unable to find index for '') s of
         [] \<Rightarrow> False
       | c # r \<Rightarrow> c \<noteq> CHR 0x0A \<and> c \<noteq> CHR 0x0D \<and> starts_with ''geoNear'' r))"

fun matches_geoNear :: "string \<Rightarrow> bool" where
  "matches_geoNear [] = False"
| "matches_geoNear (c # cs) = (geoNear_at (c # cs) \<or> matches_geoNear cs)"

text \<open>\<^verbatim>\<open>/field=([A-Za-z_0-9]+) /\<close>: the group of the leftmost match, if there is one.\<close>

definition word_char :: "char \<Rightarrow> bool" where
  "word_char c =
     (c \<in> set ''ABCDEFGHIJKLMNOPQRSTUVWXYZabcdefghijklmnopqrstuvwxyz_0123456789'')"

definition field_at :: "string \<Rightarrow> string option" where
  "field_at s =
     (if starts_with ''field='' s then
        (let r = drop (length ''field='') s in
         (case (takeWhile word_char r, dropWhile word_char r) of
            (w, a # t) \<Rightarrow> if w \<noteq> [] \<and> a = CHR '' '' then Some w else None
          | (w, []) \<Rightarrow> None))
      else None)"

fun match_field :: "string \<Rightarrow> string option" where
  "match_field [] = None"
| "match_field (c # cs) =
     (case field_at (c # cs) of Some w \<Rightarrow> Some w | None \<Rightarrow> match_field cs)"

text \<open>\<^verbatim>\<open>error.code != 17007 || !error.message.match(...)\<close>: only a driver error has that code.\<close>

fun not_geo_error :: "error \<Rightarrow> bool" where
  "not_geo_error (StoreError code message) = (code \<noteq> 17007 \<or> \<not> matches_geoNear message)"
| "not_geo_error e = True"

fun error_message :: "error \<Rightarrow> string" where
  "error_message (StoreError code message) = message"
| "error_message e = []"

definition rawFind :: "env \<Rightarrow> string \<Rightarrow> json \<Rightarrow> json \<Rightarrow> json \<Rightarrow> json \<Rightarrow> json io" where
  "rawFind env coll query skip limit order =
     perform env (RawFind coll query (JObj [(''skip'', skip), (''limit'', limit), (''sort'', order)]))"

text \<open>
  \<^verbatim>\<open>find\<close>, with "smart indexing". \<^verbatim>\<open>match(...)[1]\<close> is a TypeError when the message
  names no field; the group is never empty, so \<^verbatim>\<open>if (!key) throw error\<close> cannot fire.
\<close>

definition MongoCollection_find :: "env \<Rightarrow> string \<Rightarrow> json \<Rightarrow> json \<Rightarrow> json \<Rightarrow> json \<Rightarrow> json io" where
  "MongoCollection_find env coll query skip limit order = (\<lambda>w.
     case rawFind env coll query skip limit order w of
       (Inr docs, w1) \<Rightarrow> (Inr docs, w1)
     | (Inl error, w1) \<Rightarrow>
         if not_geo_error error then (Inl error, w1)
         else (case match_field (error_message error) of
                 None \<Rightarrow> (Inl TypeError, w1)
               | Some key \<Rightarrow>
                   if key = [] then (Inl error, w1)
                   else and_then (perform env (CreateIndex coll (JObj [(key, JStr ''2d'')])))
                          (\<lambda>_. rawFind env coll query skip limit order) w1))"

definition MongoCollection_count :: "env \<Rightarrow> string \<Rightarrow> json \<Rightarrow> json \<Rightarrow> json \<Rightarrow> json \<Rightarrow> json io" where
  "MongoCollection_count env coll query skip limit order =
     perform env (RawCount coll query (JObj [(''skip'', skip), (''limit'', limit), (''sort'', order)]))"

definition findOneAndUpdate :: "env \<Rightarrow> string \<Rightarrow> json \<Rightarrow> json \<Rightarrow> json io" where
  "findOneAndUpdate env coll query update =
     and_then (perform env (FindAndModify coll query (JArr []) update (JObj [(''new'', JBool True)])))
       (\<lambda>document. lift (member document ''value''))"

section \<open>Termination measure for recursion over queries and operators\<close>

text \<open>
  The controller recurses into the elements of an array found under a named key
  (\<^verbatim>\<open>$or\<close>, \<^verbatim>\<open>$and\<close>, \<^verbatim>\<open>ops\<close>). Such elements are smaller than the value they
  were found in; an index of a string or an array is never such a key.
\<close>

fun jsize :: "json \<Rightarrow> nat" where
  "jsize (JArr xs) = Suc (sum_list (map (\<lambda>x. Suc (jsize x)) xs))"
| "jsize (JObj kvs) = Suc (sum_list (map (\<lambda>kv. Suc (jsize (snd kv))) kvs))"
| "jsize (JStr s) = length s - 1"
| "jsize v = 0"

lemma digits_chars: "c \<in> set (digits n) \<Longrightarrow> c \<in> set ''0123456789''"
proof (induction n rule: digits.induct)
  case (1 n)
  show ?case
  proof (cases "n < 10")
    case True
    then have "digits n = [''0123456789'' ! n]" by (simp add: digits.simps)
    with 1(2) have "c = ''0123456789'' ! n" by simp
    moreover from True have "n < length ''0123456789''" by simp
    ultimately show ?thesis using nth_mem by blast
  next
    case False
    then have d: "digits n = digits (n div 10) @ [''0123456789'' ! (n mod 10)]"
      by (subst digits.simps) simp
    have "n mod 10 < length ''0123456789''" by simp
    then have "''0123456789'' ! (n mod 10) \<in> set ''0123456789''" using nth_mem by blast
    with 1 False d show ?thesis by auto
  qed
qed

definition named :: "string \<Rightarrow> bool" where
  "named k = (\<exists>c \<in> set k. c \<notin> set ''0123456789'')"

lemma indexed_named: "named k \<Longrightarrow> obj_get (indexed xs) k = JUndefined"
proof -
  assume n: "named k"
  have "k \<notin> set (map digits [0 ..< length xs])"
    using n digits_chars unfolding named_def by fastforce
  then have "k \<notin> fst ` set (indexed xs)"
    unfolding indexed_def by (metis set_zip_leftD imageE prod.collapse)
  then have "map_of (indexed xs) k = None" by (simp add: map_of_eq_None_iff)
  then show ?thesis by (simp add: obj_get_def)
qed

lemma obj_get_jsize: "obj_get kvs k \<noteq> JUndefined \<Longrightarrow> jsize (obj_get kvs k) + 2 \<le> jsize (JObj kvs)"
proof (induction kvs)
  case Nil
  then show ?case by (simp add: obj_get_def)
next
  case (Cons kv kvs)
  then show ?case by (cases kv) (auto simp: obj_get_def split: if_splits)
qed

lemma iterate_jsize: "iterate v = Inr xs \<Longrightarrow> (\<Sum>x\<leftarrow>xs. 2 * jsize x + 2) \<le> 2 * jsize v + 2"
proof (cases v)
  case (JStr s)
  assume "iterate v = Inr xs"
  with JStr have xs: "xs = map (\<lambda>c. JStr [c]) s" by simp
  have "(\<Sum>x\<leftarrow>map (\<lambda>c. JStr [c]) s. 2 * jsize x + 2) = 2 * length s"
    by (induction s) auto
  with xs JStr show ?thesis by simp
next
  case (JArr ys)
  assume "iterate v = Inr xs"
  with JArr have xs: "xs = ys" by simp
  have "(\<Sum>x\<leftarrow>ys. 2 * jsize x + 2) = 2 * (\<Sum>x\<leftarrow>ys. Suc (jsize x))"
    by (induction ys) auto
  with xs JArr show ?thesis by simp
qed auto

lemma get_iterate_jsize:
  assumes "named k" "iterate (get op k) = Inr xs"
  shows "(\<Sum>x\<leftarrow>xs. 2 * jsize x + 2) < 2 * jsize op + 1"
proof (cases op)
  case (JObj kvs)
  with assms have "obj_get kvs k \<noteq> JUndefined" by (auto simp: get_def)
  from obj_get_jsize[OF this] iterate_jsize[OF assms(2)] JObj show ?thesis
    by (simp add: get_def)
next
  case (JArr ys)
  with assms show ?thesis by (simp add: get_def indexed_named named_def split: if_splits)
next
  case (JStr s)
  with assms show ?thesis by (simp add: get_def indexed_named named_def split: if_splits)
qed (use assms in \<open>auto simp: get_def\<close>)

section \<open>DatabaseController: collections, relations, schema loading\<close>

definition rawCollection :: "env \<Rightarrow> string \<Rightarrow> string" where
  "rawCollection env className = collectionPrefix env @ className"

definition adaptiveCollection :: "env \<Rightarrow> string \<Rightarrow> string" where
  "adaptiveCollection env className = collectionPrefix env @ className"

definition collection :: "env \<Rightarrow> string \<Rightarrow> error + string" where
  "collection env className =
     (if \<not> classNameIsValid env className then Inl (InvalidClassName className)
      else Inr (rawCollection env className))"

definition relation_doc :: "json \<Rightarrow> json \<Rightarrow> json" where
  "relation_doc fromId toId = JObj [(''relatedId'', toId), (''owningId'', fromId)]"

definition addRelation :: "env \<Rightarrow> string \<Rightarrow> string \<Rightarrow> json \<Rightarrow> json \<Rightarrow> error + call" where
  "addRelation env key fromClassName fromId toId =
     (let doc = relation_doc fromId toId;
          className = ''_Join:'' @ key @ '':'' @ fromClassName
      in case collection env className of
           Inl e \<Rightarrow> Inl e
         | Inr coll \<Rightarrow> Inr (UpdateDocs coll doc doc (JObj [(''upsert'', JBool True)])))"

definition removeRelation :: "env \<Rightarrow> string \<Rightarrow> string \<Rightarrow> json \<Rightarrow> json \<Rightarrow> error + call" where
  "removeRelation env key fromClassName fromId toId =
     (let doc = relation_doc fromId toId;
          className = ''_Join:'' @ key @ '':'' @ fromClassName
      in case collection env className of
           Inl e \<Rightarrow> Inl e
         | Inr coll \<Rightarrow> Inr (Remove coll doc))"

type_synonym scan = "call list \<times> string list"

fun push_relations :: "(json \<Rightarrow> error + call) \<Rightarrow> json list \<Rightarrow> call list \<Rightarrow> error option \<times> call list" where
  "push_relations relation [] pending = (None, pending)"
| "push_relations relation (object # objects) pending =
     (case member object ''objectId'' of
        Inl e \<Rightarrow> (Some e, pending)
      | Inr toId \<Rightarrow>
          (case relation toId of
             Inl e \<Rightarrow> (Some e, pending)
           | Inr c \<Rightarrow> push_relations relation objects (pending @ [c])))"

definition relation_block :: "(json \<Rightarrow> error + call) \<Rightarrow> json \<Rightarrow> string \<Rightarrow> scan \<Rightarrow> error option \<times> scan" where
  "relation_block relation op key acc =
     (case iterate (get op ''objects'') of
        Inl e \<Rightarrow> (Some e, acc)
      | Inr objects \<Rightarrow>
          (case push_relations relation objects (fst acc) of
             (Some e, pending) \<Rightarrow> (Some e, (pending, snd acc))
           | (None, pending) \<Rightarrow> (None, (pending, snd acc @ [key]))))"

definition relation_blocks :: "env \<Rightarrow> string \<Rightarrow> json \<Rightarrow> json \<Rightarrow> string \<Rightarrow> scan \<Rightarrow> error option \<times> scan" where
  "relation_blocks env className objectId op key acc =
     (case (if loose_eq (get op ''__op'') ''AddRelation''
            then relation_block (addRelation env key className objectId) op key acc
            else (None, acc)) of
        (Some e, acc1) \<Rightarrow> (Some e, acc1)
      | (None, acc1) \<Rightarrow>
          if loose_eq (get op ''__op'') ''RemoveRelation''
          then relation_block (removeRelation env key className objectId) op key acc1
          else (None, acc1))"

function process :: "env \<Rightarrow> string \<Rightarrow> json \<Rightarrow> json \<Rightarrow> string \<Rightarrow> scan \<Rightarrow> error option \<times> scan"
  and process_ops :: "env \<Rightarrow> string \<Rightarrow> json \<Rightarrow> json list \<Rightarrow> string \<Rightarrow> scan \<Rightarrow> error option \<times> scan"
where
  "process env className objectId op key acc =
     (if \<not> truthy op then (None, acc)
      else
        (case relation_blocks env className objectId op key acc of
           (Some e, acc2) \<Rightarrow> (Some e, acc2)
         | (None, acc2) \<Rightarrow>
             if loose_eq (get op ''__op'') ''Batch''
             then (case iterate (get op ''ops'') of
                     Inl e \<Rightarrow> (Some e, acc2)
                   | Inr ops \<Rightarrow> process_ops env className objectId ops key acc2)
             else (None, acc2)))"
| "process_ops env className objectId [] key acc = (None, acc)"
| "process_ops env className objectId (x # xs) key acc =
     (case process env className objectId x key acc of
        (Some e, acc1) \<Rightarrow> (Some e, acc1)
      | (None, acc1) \<Rightarrow> process_ops env className objectId xs key acc1)"
  by pat_completeness auto
termination
proof (relation "measure (\<lambda>a. case a of
          Inl (env, className, objectId, op, key, acc) \<Rightarrow> 2 * jsize op + 1
        | Inr (env, className, objectId, ops, key, acc) \<Rightarrow> (\<Sum>x\<leftarrow>ops. 2 * jsize x + 2))", goal_cases)
  case 1
  show ?case by simp
next
  case (2 env className objectId op key acc x acc2 ops)
  have "named ''ops''" by (simp add: named_def)
  from get_iterate_jsize[OF this] 2 show ?case by simp
qed simp_all

fun process_keys :: "env \<Rightarrow> string \<Rightarrow> json \<Rightarrow> obj \<Rightarrow> string list \<Rightarrow> scan \<Rightarrow> error option \<times> scan" where
  "process_keys env className objectId update [] acc = (None, acc)"
| "process_keys env className objectId update (key # keys) acc =
     (case process env className objectId (obj_get update key) key acc of
        (Some e, acc1) \<Rightarrow> (Some e, acc1)
      | (None, acc1) \<Rightarrow> process_keys env className objectId update keys acc1)"

definition handleRelationUpdates :: "env \<Rightarrow> string \<Rightarrow> json \<Rightarrow> obj \<Rightarrow> obj io" where
  "handleRelationUpdates env className objectId update =
     (let objectId' = (if truthy (obj_get update ''objectId'')
                       then obj_get update ''objectId'' else objectId)
      in case process_keys env className objectId' update (map fst update) ([], []) of
           (Some e, (pending, deleteMe)) \<Rightarrow>
             (\<lambda>w. case perform_all env pending w of (r, w1) \<Rightarrow> (Inl e, w1))
         | (None, (pending, deleteMe)) \<Rightarrow>
             and_then (perform_all env pending)
               (\<lambda>_. resolve (foldl obj_delete update deleteMe)))"

definition finishLoad :: "env \<Rightarrow> schema io" where
  "finishLoad env = (\<lambda>w.
     (schemaLoad env (trace w), w\<lparr>trace := trace w @ [SchemaLoad], schemaPromise := False\<rparr>))"

definition startLoad :: "env \<Rightarrow> schema io" where
  "startLoad env = (\<lambda>w.
     case collection env ''_SCHEMA'' of
       Inl e \<Rightarrow> (Inl e, w)
     | Inr coll \<Rightarrow> finishLoad env (w\<lparr>schemaPromise := True\<rparr>))"

definition returnsTrue :: "schema \<Rightarrow> error + bool" where
  "returnsTrue s = Inr True"

definition loadSchema :: "env \<Rightarrow> (schema \<Rightarrow> error + bool) \<Rightarrow> schema io" where
  "loadSchema env acceptor = (\<lambda>w.
     if \<not> schemaPromise w then startLoad env w
     else and_then (finishLoad env)
            (\<lambda>schema. case acceptor schema of
                         Inl e \<Rightarrow> reject e
                       | Inr ok \<Rightarrow> if ok then resolve schema else startLoad env) w)"

definition untransformObject :: "env \<Rightarrow> schema \<Rightarrow> bool \<Rightarrow> string list \<Rightarrow> string \<Rightarrow> json \<Rightarrow> error + json" where
  "untransformObject env schema isMaster aclGroup className mongoObject =
     (case transform_untransformObject env schema className mongoObject of
        Inl e \<Rightarrow> Inl e
      | Inr object \<Rightarrow>
          if className \<noteq> ''_User'' then Inr object
          else if isMaster then Inr object
          else (case member object ''objectId'' of
                  Inl e \<Rightarrow> Inl e
                | Inr objectId \<Rightarrow>
                    if (case objectId of JStr s \<Rightarrow> s \<in> set aclGroup | _ \<Rightarrow> False) then Inr object
                    else (case object of
                            JObj kvs \<Rightarrow>
                              Inr (JObj (obj_delete (obj_delete kvs ''authData'') ''sessionToken''))
                          | _ \<Rightarrow> Inr object)))"

record options =
  opt_acl :: "string list option option"
  opt_skip :: json
  opt_limit :: json
  opt_sort :: "obj option"
  opt_count :: json

definition isMaster :: "options \<Rightarrow> bool" where
  "isMaster options = (opt_acl options = None)"

definition aclGroup :: "options \<Rightarrow> string list" where
  "aclGroup options = (case opt_acl options of Some (Some acl) \<Rightarrow> acl | _ \<Rightarrow> [])"

definition check_permission :: "schema \<Rightarrow> options \<Rightarrow> string \<Rightarrow> string \<Rightarrow> unit io" where
  "check_permission schema options className action =
     (if \<not> isMaster options
      then lift (validatePermission schema className (aclGroup options) action)
      else resolve ())"

definition writePerms :: "string list \<Rightarrow> json list" where
  "writePerms acl =
     JObj [(''_wperm'', JObj [(''$exists'', JBool False)])] #
     map (\<lambda>entry. JObj [(''_wperm'', JObj [(''$in'', JArr [JStr entry])])]) acl"

definition restrict_write :: "options \<Rightarrow> json \<Rightarrow> json" where
  "restrict_write options mongoWhere =
     (case opt_acl options of
        Some (Some acl) \<Rightarrow>
          JObj [(''$and'', JArr [mongoWhere, JObj [(''$or'', JArr (writePerms acl))]])]
      | _ \<Rightarrow> mongoWhere)"

definition update_acceptor :: "string \<Rightarrow> json \<Rightarrow> schema \<Rightarrow> error + bool" where
  "update_acceptor className query schema =
     (case object_keys query of
        Inl e \<Rightarrow> Inl e
      | Inr keys \<Rightarrow> Inr (hasKeys schema className (map Key keys)))"

definition update_response :: "json \<Rightarrow> json \<Rightarrow> error + json" where
  "update_response mongoUpdate result =
     (case member mongoUpdate ''$inc'' of
        Inl e \<Rightarrow> Inl e
      | Inr inc \<Rightarrow>
          if truthy inc
          then (case object_keys inc of
                  Inl e \<Rightarrow> Inl e
                | Inr keys \<Rightarrow>
                    Inr (JObj (foldl (\<lambda>response key. obj_set response key (get result key)) [] keys)))
          else Inr (JObj []))"

definition update :: "env \<Rightarrow> string \<Rightarrow> json \<Rightarrow> obj \<Rightarrow> options \<Rightarrow> json io" where
  "update env className query payload options =
     and_then (loadSchema env (update_acceptor className query)) (\<lambda>schema.
     and_then (check_permission schema options className ''update'') (\<lambda>_.
     and_then (lift (member query ''objectId'')) (\<lambda>objectId.
     and_then (handleRelationUpdates env className objectId payload) (\<lambda>payload.
     and_then (resolve (adaptiveCollection env className)) (\<lambda>collection.
     and_then (lift (transformWhere env schema className query)) (\<lambda>mongoWhere.
     and_then (lift (transformUpdate env schema className (JObj payload))) (\<lambda>mongoUpdate.
     and_then (findOneAndUpdate env collection (restrict_write options mongoWhere) mongoUpdate)
       (\<lambda>result.
          if \<not> truthy result then reject ObjectNotFound
          else lift (update_response mongoUpdate result)))))))))"

definition destroy :: "env \<Rightarrow> string \<Rightarrow> json \<Rightarrow> options \<Rightarrow> json io" where
  "destroy env className query options =
     and_then (loadSchema env returnsTrue) (\<lambda>schema.
     and_then (check_permission schema options className ''delete'') (\<lambda>_.
     and_then (lift (collection env className)) (\<lambda>coll.
     and_then (lift (transformWhere env schema className query)) (\<lambda>mongoWhere.
     and_then (perform env (Remove coll (restrict_write options mongoWhere))) (\<lambda>resp.
     and_then (lift (member resp ''result'')) (\<lambda>result.
     and_then (lift (member result ''n'')) (\<lambda>n.
       if n = JNum 0 \<and> className \<noteq> ''_Session'' then reject ObjectNotFound
       else resolve JUndefined)))))))"

definition create :: "env \<Rightarrow> string \<Rightarrow> obj \<Rightarrow> options \<Rightarrow> json io" where
  "create env className object options =
     and_then (loadSchema env returnsTrue) (\<lambda>schema.
     and_then (check_permission schema options className ''create'') (\<lambda>_.
     and_then (handleRelationUpdates env className JNull object) (\<lambda>object.
     and_then (lift (collection env className)) (\<lambda>coll.
     and_then (lift (transformCreate env schema className (JObj object))) (\<lambda>mongoObject.
       perform env (Insert coll (JArr [mongoObject])))))))"

section \<open>DatabaseController: query rewriting and find\<close>

definition joinTableName :: "json \<Rightarrow> json \<Rightarrow> string" where
  "joinTableName className key = ''_Join:'' @ js_string key @ '':'' @ js_string className"

definition relatedIds :: "env \<Rightarrow> json \<Rightarrow> json \<Rightarrow> json \<Rightarrow> json list io" where
  "relatedIds env className key owningId =
     and_then (resolve (adaptiveCollection env (joinTableName className key))) (\<lambda>coll.
     and_then (MongoCollection_find env coll (JObj [(''owningId'', owningId)])
                 JUndefined JUndefined JUndefined) (\<lambda>results.
       lift (map_member results ''relatedId'')))"

definition owningIds :: "env \<Rightarrow> string \<Rightarrow> string \<Rightarrow> json list \<Rightarrow> json list io" where
  "owningIds env className key ids =
     and_then (resolve (adaptiveCollection env (joinTableName (JStr className) (JStr key)))) (\<lambda>coll.
     and_then (MongoCollection_find env coll
                 (JObj [(''relatedId'', JObj [(''$in'', JArr ids)])])
                 JUndefined JUndefined JUndefined) (\<lambda>results.
       lift (map_member results ''owningId'')))"

function keysForQuery :: "json \<Rightarrow> error + keyset list"
  and keysForQuery_each :: "json list \<Rightarrow> error + keyset list"
where
  "keysForQuery query =
     (case member query ''$and'' of
        Inl e \<Rightarrow> Inl e
      | Inr ands \<Rightarrow>
          (let sublist = (if truthy ands then ands else get query ''$or'') in
           if truthy sublist
           then (case sublist of
                   JArr subqueries \<Rightarrow> keysForQuery_each subqueries
                 | _ \<Rightarrow> Inl TypeError)
           else (case object_keys query of
                   Inl e \<Rightarrow> Inl e
                 | Inr keys \<Rightarrow> Inr (map Key keys))))"
| "keysForQuery_each [] = Inr []"
| "keysForQuery_each (subquery # subqueries) =
     (case keysForQuery subquery of
        Inl e \<Rightarrow> Inl e
      | Inr keys \<Rightarrow>
          (case keysForQuery_each subqueries of
             Inl e \<Rightarrow> Inl e
           | Inr memo \<Rightarrow> Inr (KeySet keys # memo)))"
  by pat_completeness auto
termination
proof (relation "measure (\<lambda>a. case a of
          Inl query \<Rightarrow> 2 * jsize query + 1
        | Inr subqueries \<Rightarrow> (\<Sum>x\<leftarrow>subqueries. 2 * jsize x + 2))", goal_cases)
  case 1
  show ?case by simp
next
  case (2 query ands sublist subqueries)
  have n: "named ''$and''" "named ''$or''" by (simp_all add: named_def)
  from 2 have s: "sublist = JArr subqueries" by simp
  from 2 have a: "get query ''$and'' = ands" by (simp add: get_def)
  have "iterate (get query ''$and'') = Inr subqueries \<or> iterate (get query ''$or'') = Inr subqueries"
  proof (cases "truthy ands")
    case True
    with 2(2) s a have "get query ''$and'' = JArr subqueries" by simp
    then show ?thesis by simp
  next
    case False
    with 2(2) s have "get query ''$or'' = JArr subqueries" by simp
    then show ?thesis by simp
  qed
  with n get_iterate_jsize show ?case by fastforce
qed simp_all

definition relatedTo_args :: "json \<Rightarrow> error + json \<times> json \<times> json" where
  "relatedTo_args relatedTo =
     (case member (get relatedTo ''object'') ''className'' of
        Inl e \<Rightarrow> Inl e
      | Inr className \<Rightarrow>
          (case member (get relatedTo ''object'') ''objectId'' of
             Inl e \<Rightarrow> Inl e
           | Inr objectId \<Rightarrow> Inr (className, get relatedTo ''key'', objectId)))"

definition resolve_relatedTo :: "obj \<Rightarrow> json list \<Rightarrow> error + obj" where
  "resolve_relatedTo query ids =
     (let q1 = obj_delete query ''$relatedTo'';
          objectId = (if truthy (obj_get q1 ''objectId'') then obj_get q1 ''objectId'' else JObj []);
          q2 = obj_set q1 ''objectId'' objectId;
          queryIn = (if truthy (get objectId ''$in'') then get objectId ''$in'' else JArr [])
      in case concat_ids queryIn ids of
           Inl e \<Rightarrow> Inl e
         | Inr queryIn' \<Rightarrow> Inr (obj_set q2 ''objectId'' (JObj [(''$in'', queryIn')])))"

lemma obj_get_obj_set: "obj_get (obj_set kvs k v) k' = (if k' = k then v else obj_get kvs k')"
  by (induction kvs) (auto simp: obj_get_def)

lemma obj_get_obj_delete:
  "obj_get (obj_delete kvs k) k' = (if k' = k then JUndefined else obj_get kvs k')"
  by (induction kvs) (auto simp: obj_get_def obj_delete_def)

lemma resolve_relatedTo_keeps:
  assumes "resolve_relatedTo query ids = Inr query'"
  shows "obj_get query' ''$or'' = obj_get query ''$or''"
    and "obj_get query' ''$relatedTo'' = JUndefined"
  using assms
  by (auto simp: resolve_relatedTo_def Let_def obj_get_obj_set obj_get_obj_delete
           split: sum.splits)

function reduceRelationKeys :: "env \<Rightarrow> string \<Rightarrow> json \<Rightarrow> json io"
  and reduceRelationKeys_each :: "env \<Rightarrow> string \<Rightarrow> json list \<Rightarrow> json list io"
where
  "reduceRelationKeys env className query w =
     (case query of
        JUndefined \<Rightarrow> (Inl TypeError, w)
      | JNull \<Rightarrow> (Inl TypeError, w)
      | JObj kvs \<Rightarrow>
          if truthy (obj_get kvs ''$or'')
          then (case obj_get kvs ''$or'' of
                  JArr branches \<Rightarrow>
                    (case reduceRelationKeys_each env className branches w of
                       (Inl e, w1) \<Rightarrow> (Inl e, w1)
                     | (Inr branches', w1) \<Rightarrow>
                         (Inr (JObj (obj_set kvs ''$or'' (JArr branches'))), w1))
                | _ \<Rightarrow> (Inl TypeError, w))
          else if truthy (obj_get kvs ''$relatedTo'')
          then (case relatedTo_args (obj_get kvs ''$relatedTo'') of
                  Inl e \<Rightarrow> (Inl e, w)
                | Inr (relatedClass, key, objectId) \<Rightarrow>
                    (case relatedIds env relatedClass key objectId w of
                       (Inl e, w1) \<Rightarrow> (Inl e, w1)
                     | (Inr ids, w1) \<Rightarrow>
                         (case resolve_relatedTo kvs ids of
                            Inl e \<Rightarrow> (Inl e, w1)
                          | Inr kvs' \<Rightarrow> reduceRelationKeys env className (JObj kvs') w1)))
          else (Inr query, w)
      | _ \<Rightarrow> (Inr query, w))"
| "reduceRelationKeys_each env className [] w = (Inr [], w)"
| "reduceRelationKeys_each env className (aQuery # rest) w =
     (case reduceRelationKeys env className aQuery w of
        (Inl e, w1) \<Rightarrow> (Inl e, w1)
      | (Inr aQuery', w1) \<Rightarrow>
          (case reduceRelationKeys_each env className rest w1 of
             (Inl e, w2) \<Rightarrow> (Inl e, w2)
           | (Inr rest', w2) \<Rightarrow> (Inr (aQuery' # rest'), w2)))"
  by pat_completeness auto

definition or_part :: "json \<Rightarrow> json" where
  "or_part query = (case query of JObj kvs \<Rightarrow> obj_get kvs ''$or'' | _ \<Rightarrow> JUndefined)"

definition has_relatedTo :: "json \<Rightarrow> nat" where
  "has_relatedTo query =
     (case query of JObj kvs \<Rightarrow> if truthy (obj_get kvs ''$relatedTo'') then 1 else 0 | _ \<Rightarrow> 0)"

lemma or_part_jsize: "jsize (or_part query) \<le> jsize query"
proof (cases query)
  case (JObj kvs)
  then show ?thesis
    using obj_get_jsize[of kvs "''$or''"] by (cases "obj_get kvs ''$or'' = JUndefined") (auto simp: or_part_def)
qed (auto simp: or_part_def)

lemma sum_list_jsize_JArr: "(\<Sum>x\<leftarrow>xs. 2 * jsize x + 2) < 2 * jsize (JArr xs) + 1"
proof -
  have "(\<Sum>x\<leftarrow>xs. 2 * jsize x + 2) = 2 * (\<Sum>x\<leftarrow>xs. Suc (jsize x))"
    by (induction xs) auto
  then show ?thesis by simp
qed

termination reduceRelationKeys
proof (relation "inv_image (less_than <*lex*> less_than) (\<lambda>a. case a of
          Inl (env, className, query, w) \<Rightarrow> (2 * jsize (or_part query) + 1, has_relatedTo query)
        | Inr (env, className, branches, w) \<Rightarrow> (\<Sum>x\<leftarrow>branches. 2 * jsize x + 2, 0))", goal_cases)
  case 1
  show ?case by (intro wf_inv_image wf_lex_prod wf_less_than)
next
  case (2 env className query w kvs branches)
  then show ?case using sum_list_jsize_JArr[of branches] by (simp add: or_part_def)
next
  case (3 env className query w kvs x relatedClass y key objectId r w1 ids kvs')
  from 3 have r: "resolve_relatedTo kvs ids = Inr kvs'" by simp
  from resolve_relatedTo_keeps[OF r] 3 show ?case
    by (simp add: or_part_def has_relatedTo_def)
next
  case (4 env className aQuery rest w)
  then show ?case using or_part_jsize[of aQuery] by simp
next
  case (5 env className aQuery rest w)
  then show ?case by simp
qed

declare reduceRelationKeys.simps [simp del]

definition relation_match :: "string \<Rightarrow> string option" where
  "relation_match t =
     (if starts_with ''relation<'' t \<and> length ''relation<'' < length t \<and> last t = CHR ''>'' \<and>
         (\<forall>c \<in> set (butlast (drop (length ''relation<'') t)). c \<noteq> CHR 0x0A \<and> c \<noteq> CHR 0x0D)
      then Some (butlast (drop (length ''relation<'') t))
      else None)"

definition relation_request :: "schema \<Rightarrow> string \<Rightarrow> string \<Rightarrow> json \<Rightarrow> error + json list option" where
  "relation_request schema className key v =
     (if truthy v \<and> (truthy (get v ''$in'') \<or> loose_eq (get v ''__type'') ''Pointer'')
      then (case getExpectedType schema className key of
              None \<Rightarrow> Inr None
            | Some t \<Rightarrow>
                (case relation_match t of
                   None \<Rightarrow> Inr None
                 | Some relatedClassName \<Rightarrow>
                     if truthy (get v ''$in'')
                     then (case map_member (get v ''$in'') ''objectId'' of
                             Inl e \<Rightarrow> Inl e
                           | Inr related \<Rightarrow> Inr (Some related))
                     else Inr (Some [get v ''objectId''])))
      else Inr None)"

fun relation_requests :: "schema \<Rightarrow> string \<Rightarrow> obj \<Rightarrow> error + (string \<times> json list) list" where
  "relation_requests schema className [] = Inr []"
| "relation_requests schema className ((key, v) # rest) =
     (case relation_request schema className key v of
        Inl e \<Rightarrow> Inl e
      | Inr r \<Rightarrow>
          (case relation_requests schema className rest of
             Inl e \<Rightarrow> Inl e
           | Inr rs \<Rightarrow> Inr (case r of None \<Rightarrow> rs | Some related \<Rightarrow> (key, related) # rs)))"

definition object_assign :: "obj \<Rightarrow> json \<Rightarrow> obj" where
  "object_assign target source =
     (case entries source of
        Inl e \<Rightarrow> target
      | Inr kvs \<Rightarrow> foldl (\<lambda>t kv. obj_set t (fst kv) (snd kv)) target kvs)"

definition rewrite_key :: "obj \<Rightarrow> string \<Rightarrow> json list \<Rightarrow> error + obj" where
  "rewrite_key query key ids =
     (let q1 = obj_delete query key;
          objectId = object_assign [(''$in'', JArr [])] (obj_get q1 ''objectId'')
      in case concat_ids (obj_get objectId ''$in'') ids of
           Inl e \<Rightarrow> Inl e
         | Inr queryIn \<Rightarrow> Inr (obj_set q1 ''objectId'' (JObj (obj_set objectId ''$in'' queryIn))))"

fun apply_requests :: "env \<Rightarrow> string \<Rightarrow> obj \<Rightarrow> (string \<times> json list) list \<Rightarrow> obj io" where
  "apply_requests env className query [] w = (Inr query, w)"
| "apply_requests env className query ((key, related) # rest) w =
     (case owningIds env className key related w of
        (Inl e, w1) \<Rightarrow> (Inl e, w1)
      | (Inr ids, w1) \<Rightarrow>
          (case rewrite_key query key ids of
             Inl e \<Rightarrow> (Inl e, w1)
           | Inr query' \<Rightarrow> apply_requests env className query' rest w1))"

definition reduce_keys :: "env \<Rightarrow> string \<Rightarrow> json \<Rightarrow> schema \<Rightarrow> json io" where
  "reduce_keys env className query schema = (\<lambda>w.
     case entries query of
       Inl e \<Rightarrow> (Inl e, w)
     | Inr kvs \<Rightarrow>
         (case relation_requests schema className kvs of
            Inl e \<Rightarrow> (Inl e, w)
          | Inr [] \<Rightarrow> (Inr query, w)
          | Inr requests \<Rightarrow>
              (case apply_requests env className kvs requests w of
                 (Inl e, w1) \<Rightarrow> (Inl e, w1)
               | (Inr kvs', w1) \<Rightarrow> (Inr (JObj kvs'), w1))))"

definition assign_or :: "json \<Rightarrow> json list \<Rightarrow> json" where
  "assign_or query results =
     (case query of JObj kvs \<Rightarrow> JObj (obj_set kvs ''$or'' (JArr results)) | _ \<Rightarrow> query)"

function reduceInRelation :: "env \<Rightarrow> string \<Rightarrow> json \<Rightarrow> schema \<Rightarrow> (json \<times> json) io"
  and reduceInRelation_each :: "env \<Rightarrow> string \<Rightarrow> json list \<Rightarrow> schema \<Rightarrow> json list io"
where
  "reduceInRelation env className query schema w =
     (case member query ''$or'' of
        Inl e \<Rightarrow> (Inl e, w)
      | Inr ors \<Rightarrow>
          if truthy ors
          then (case ors of
                  JArr branches \<Rightarrow>
                    (case reduceInRelation_each env className branches schema w of
                       (Inl e, w1) \<Rightarrow> (Inl e, w1)
                     | (Inr results, w1) \<Rightarrow>
                         (Inr (assign_or query results,
                               JArr (replicate (length branches) JUndefined)), w1))
                | _ \<Rightarrow> (Inl TypeError, w))
          else (case reduce_keys env className query schema w of
                  (Inl e, w1) \<Rightarrow> (Inl e, w1)
                | (Inr query', w1) \<Rightarrow> (Inr (query', query'), w1)))"
| "reduceInRelation_each env className [] schema w = (Inr [], w)"
| "reduceInRelation_each env className (aQuery # rest) schema w =
     (case reduceInRelation env className aQuery schema w of
        (Inl e, w1) \<Rightarrow> (Inl e, w1)
      | (Inr (mutated, result), w1) \<Rightarrow>
          (case reduceInRelation_each env className rest schema w1 of
             (Inl e, w2) \<Rightarrow> (Inl e, w2)
           | (Inr results, w2) \<Rightarrow> (Inr (result # results), w2)))"
  by pat_completeness auto
termination
proof (relation "measure (\<lambda>a. case a of
          Inl (env, className, query, schema, w) \<Rightarrow> 2 * jsize query + 1
        | Inr (env, className, branches, schema, w) \<Rightarrow> (\<Sum>x\<leftarrow>branches. 2 * jsize x + 2))", goal_cases)
  case 1
  show ?case by simp
next
  case (2 env className query schema w ors branches)
  then have "iterate (get query ''$or'') = Inr branches" by (simp add: get_def)
  moreover have "named ''$or''" by (simp add: named_def)
  ultimately show ?case using get_iterate_jsize by fastforce
qed simp_all

declare reduceInRelation.simps [simp del]

definition find_acceptor :: "string \<Rightarrow> json \<Rightarrow> schema \<Rightarrow> error + bool" where
  "find_acceptor className query schema =
     (case keysForQuery query of
        Inl e \<Rightarrow> Inl e
      | Inr keys \<Rightarrow> Inr (hasKeys schema className keys))"

fun transform_sort :: "env \<Rightarrow> schema \<Rightarrow> string \<Rightarrow> obj \<Rightarrow> obj \<Rightarrow> error + obj" where
  "transform_sort env schema className [] mongoSort = Inr mongoSort"
| "transform_sort env schema className ((key, v) # rest) mongoSort =
     (case transformKey env schema className key of
        Inl e \<Rightarrow> Inl e
      | Inr mongoKey \<Rightarrow> transform_sort env schema className rest (obj_set mongoSort mongoKey v))"

definition mongo_sort :: "env \<Rightarrow> schema \<Rightarrow> string \<Rightarrow> options \<Rightarrow> error + json" where
  "mongo_sort env schema className options =
     (case opt_sort options of
        None \<Rightarrow> Inr JUndefined
      | Some order \<Rightarrow>
          (case transform_sort env schema className order [] of
             Inl e \<Rightarrow> Inl e
           | Inr mongoSort \<Rightarrow> Inr (JObj mongoSort)))"

definition find_action :: "json \<Rightarrow> error + string" where
  "find_action query =
     (case object_keys query of
        Inl e \<Rightarrow> Inl e
      | Inr k \<Rightarrow>
          Inr (if length k = 1 \<and> (case get query ''objectId'' of JStr s \<Rightarrow> True | _ \<Rightarrow> False)
               then ''get'' else ''find''))"

definition find_permission :: "schema \<Rightarrow> options \<Rightarrow> string \<Rightarrow> json \<Rightarrow> unit io" where
  "find_permission schema options className query =
     (if \<not> isMaster options
      then and_then (lift (find_action query))
             (\<lambda>op. lift (validatePermission schema className (aclGroup options) op))
      else resolve ())"

definition orParts :: "string list \<Rightarrow> json list" where
  "orParts acl =
     [JObj [(''_rperm'', JObj [(''$exists'', JBool False)])],
      JObj [(''_rperm'', JObj [(''$in'', JArr [JStr ''*''])])]] @
     map (\<lambda>entry. JObj [(''_rperm'', JObj [(''$in'', JArr [JStr entry])])]) acl"

definition restrict_read :: "options \<Rightarrow> json \<Rightarrow> json" where
  "restrict_read options mongoWhere =
     (if \<not> isMaster options
      then JObj [(''$and'', JArr [mongoWhere, JObj [(''$or'', JArr (orParts (aclGroup options)))]])]
      else mongoWhere)"

fun untransform_each :: "env \<Rightarrow> schema \<Rightarrow> options \<Rightarrow> string \<Rightarrow> json list \<Rightarrow> error + json list" where
  "untransform_each env schema options className [] = Inr []"
| "untransform_each env schema options className (r # rs) =
     (case untransformObject env schema (isMaster options) (aclGroup options) className r of
        Inl e \<Rightarrow> Inl e
      | Inr object \<Rightarrow>
          (case untransform_each env schema options className rs of
             Inl e \<Rightarrow> Inl e
           | Inr objects \<Rightarrow> Inr (object # objects)))"

definition untransform_results :: "env \<Rightarrow> schema \<Rightarrow> options \<Rightarrow> string \<Rightarrow> json \<Rightarrow> error + json" where
  "untransform_results env schema options className mongoResults =
     (case mongoResults of
        JArr rs \<Rightarrow>
          (case untransform_each env schema options className rs of
             Inl e \<Rightarrow> Inl e
           | Inr objects \<Rightarrow> Inr (JArr objects))
      | _ \<Rightarrow> Inl TypeError)"

definition DatabaseController_find :: "env \<Rightarrow> string \<Rightarrow> json \<Rightarrow> options \<Rightarrow> json io" where
  "DatabaseController_find env className query options =
     (let skip = (if truthy (opt_skip options) then opt_skip options else JUndefined);
          limit = (if truthy (opt_limit options) then opt_limit options else JUndefined)
      in
     and_then (loadSchema env (find_acceptor className query)) (\<lambda>schema.
     and_then (lift (mongo_sort env schema className options)) (\<lambda>order.
     and_then (find_permission schema options className query) (\<lambda>_.
     and_then (reduceRelationKeys env className query) (\<lambda>query.
     and_then (reduceInRelation env className query schema) (\<lambda>reduced.
     and_then (resolve (adaptiveCollection env className)) (\<lambda>collection.
     and_then (lift (transformWhere env schema className (fst reduced))) (\<lambda>mongoWhere.
       if truthy (opt_count options)
       then MongoCollection_count env collection (restrict_read options mongoWhere) skip limit order
       else and_then (MongoCollection_find env collection (restrict_read options mongoWhere)
                        skip limit order)
              (\<lambda>mongoResults.
                 lift (untransform_results env schema options className mongoResults))))))))))"

section \<open>Properties\<close>

lemma and_then_resolve: "and_then (resolve x) f w = f x w"
  by (simp add: and_then_def resolve_def)

lemma and_then_reject: "and_then (reject e) f w = (Inl e, w)"
  by (simp add: and_then_def reject_def)

lemma and_then_lift:
  "and_then (lift r) f w = (case r of Inl e \<Rightarrow> (Inl e, w) | Inr x \<Rightarrow> f x w)"
  by (simp add: and_then_def lift_def split: sum.splits)

lemma and_then_cases:
  assumes "and_then m f w = (r, w')"
  obtains (failed) e where "m w = (Inl e, w')" "r = Inl e"
        | (passed) x w1 where "m w = (Inr x, w1)" "f x w1 = (r, w')"
  using assms by (auto simp: and_then_def split: prod.splits sum.splits)

lemma finishLoad_trace:
  "finishLoad env w = (r, w1) \<Longrightarrow> trace w1 = trace w @ [SchemaLoad] \<and> \<not> schemaPromise w1"
  by (auto simp: finishLoad_def)

lemma startLoad_trace:
  "startLoad env w = (r, w1) \<Longrightarrow>
     (trace w1 = trace w \<or> trace w1 = trace w @ [SchemaLoad]) \<and> (schemaPromise w1 \<longrightarrow> schemaPromise w)"
  by (auto simp: startLoad_def finishLoad_def split: sum.splits)

lemma loadSchema_trace:
  assumes "loadSchema env acceptor w = (r, w1)"
  shows "\<exists>n. trace w1 = trace w @ replicate n SchemaLoad"
proof (cases "schemaPromise w")
  case False
  with assms have "startLoad env w = (r, w1)" by (simp add: loadSchema_def)
  from startLoad_trace[OF this] have "trace w1 = trace w \<or> trace w1 = trace w @ [SchemaLoad]"
    by simp
  then show ?thesis
  proof
    assume "trace w1 = trace w" then have "trace w1 = trace w @ replicate 0 SchemaLoad" by simp
    then show ?thesis by blast
  next
    assume "trace w1 = trace w @ [SchemaLoad]"
    then have "trace w1 = trace w @ replicate 1 SchemaLoad" by simp
    then show ?thesis by blast
  qed
next
  case True
  with assms have a: "and_then (finishLoad env)
            (\<lambda>schema. case acceptor schema of
                         Inl e \<Rightarrow> reject e
                       | Inr ok \<Rightarrow> if ok then resolve schema else startLoad env) w = (r, w1)"
    by (simp add: loadSchema_def)
  from a show ?thesis
  proof (cases rule: and_then_cases)
    case (failed e)
    from finishLoad_trace[OF failed(1)] have "trace w1 = trace w @ replicate 1 SchemaLoad" by simp
    then show ?thesis by blast
  next
    case (passed s w2)
    from finishLoad_trace[OF passed(1)] have t2: "trace w2 = trace w @ [SchemaLoad]" by simp
    show ?thesis
    proof (cases "acceptor s")
      case (Inl e)
      with passed(2) have "w1 = w2" by (simp add: reject_def)
      with t2 have "trace w1 = trace w @ replicate 1 SchemaLoad" by simp
      then show ?thesis by blast
    next
      case (Inr ok)
      show ?thesis
      proof (cases ok)
        case True
        with Inr passed(2) have "w1 = w2" by (simp add: resolve_def)
        with t2 have "trace w1 = trace w @ replicate 1 SchemaLoad" by simp
        then show ?thesis by blast
      next
        case False
        with Inr passed(2) have "startLoad env w2 = (r, w1)" by simp
        from startLoad_trace[OF this] t2
        have "trace w1 = trace w @ replicate 1 SchemaLoad \<or> trace w1 = trace w @ replicate 2 SchemaLoad"
          by (auto simp: numeral_2_eq_2)
        then show ?thesis by blast
      qed
    qed
  qed
qed





text \<open>
  Claim C6. A destroy that loads the schema, is permitted and names a valid class issues
  exactly one driver call, the remove on the class's collection with the translated and
  ACL-restricted filter. When the driver answers \<^verbatim>\<open>{result: {n: k}}\<close>, destroy fails with
  \<^verbatim>\<open>ObjectNotFound\<close> if \<^verbatim>\<open>k\<close> is zero and the class is not \<^verbatim>\<open>_Session\<close>; it succeeds if
  \<^verbatim>\<open>k\<close> is zero and the class is \<^verbatim>\<open>_Session\<close>, and if \<^verbatim>\<open>k\<close> is not zero for every class.
\<close>

theorem destroy_zero_removed:
  assumes loaded: "loadSchema env returnsTrue w = (Inr schema, w1)"
      and allowed: "isMaster options \<or> permits schema className (aclGroup options) ''delete''"
      and valid: "classNameIsValid env className"
      and translated: "transformWhere env schema className query = Inr mongoWhere"
      and removal: "removal = Remove (collectionPrefix env @ className) (restrict_write options mongoWhere)"
      and answered: "driver env (trace w1) removal = Inr resp"
      and result: "member resp ''result'' = Inr result"
      and n: "member result ''n'' = Inr (JNum k)"
  shows "destroy env className query options w =
           (if k = 0 \<and> className \<noteq> ''_Session'' then Inl ObjectNotFound else Inr JUndefined,
            w1\<lparr>trace := trace w1 @ [Call removal (Inr resp)]\<rparr>)"
proof -
  from allowed have permitted: "check_permission schema options className ''delete'' w1 = (Inr (), w1)"
    by (auto simp: check_permission_def validatePermission_def lift_def resolve_def)
  from valid have coll: "collection env className = Inr (collectionPrefix env @ className)"
    by (simp add: collection_def rawCollection_def)
  from answered removal
  have removed: "perform env (Remove (collectionPrefix env @ className) (restrict_write options mongoWhere)) w1
                   = (Inr resp, w1\<lparr>trace := trace w1 @ [Call removal (Inr resp)]\<rparr>)"
    by (simp add: perform_def Let_def)
  show ?thesis
    unfolding destroy_def
    by (simp add: and_then_def loaded permitted coll translated removed result n
          lift_def reject_def resolve_def)
qed

section \<open>A stub adapter for concrete runs\<close>

definition stub_schema :: schema where
  "stub_schema =
     \<lparr>getExpectedType = (\<lambda>className key.
          if className = ''Post'' \<and> key = ''likes'' then Some ''relation<_User>'' else None),
      hasKeys = (\<lambda>className keys. True),
      permits = (\<lambda>className aclGroup action. ''admin'' \<in> set aclGroup)\<rparr>"

definition stub_env :: "(event list \<Rightarrow> call \<Rightarrow> error + json) \<Rightarrow> env" where
  "stub_env answers =
     \<lparr>collectionPrefix = ''test_'',
      classNameIsValid = (\<lambda>className. True),
      driver = answers,
      schemaLoad = (\<lambda>log. Inr stub_schema),
      transformWhere = (\<lambda>schema className query. Inr query),
      transformUpdate = (\<lambda>schema className update. Inr update),
      transformCreate = (\<lambda>schema className object. Inr object),
      transformKey = (\<lambda>schema className key. Inr key),
      transform_untransformObject = (\<lambda>schema className mongoObject. Inr mongoObject)\<rparr>"

definition master :: options where
  "master = \<lparr>opt_acl = None, opt_skip = JUndefined, opt_limit = JUndefined,
              opt_sort = None, opt_count = JUndefined\<rparr>"

definition idle :: world where
  "idle = \<lparr>trace = [], schemaPromise = False\<rparr>"

definition removed :: "int \<Rightarrow> json" where
  "removed k = JObj [(''result'', JObj [(''n'', JNum k)])]"

lemma obj_get_Nil: "obj_get [] k = JUndefined"
  by (simp add: obj_get_def)

lemma obj_get_Cons: "obj_get ((k', v) # kvs) k = (if k = k' then v else obj_get kvs k)"
  by (simp add: obj_get_def)

lemmas obj_simps = obj_get_Nil obj_get_Cons indexed_named named_def obj_delete_def

lemmas run_simps =
  and_then_def lift_def resolve_def reject_def perform_def loadSchema_def startLoad_def
  finishLoad_def collection_def rawCollection_def adaptiveCollection_def check_permission_def
  validatePermission_def isMaster_def aclGroup_def restrict_write_def returnsTrue_def
  stub_env_def stub_schema_def master_def idle_def Let_def

theorem destroy_zero_removed_witness:
  "destroy (stub_env (\<lambda>log c. Inr (removed 0))) ''Post'' (JObj [(''objectId'', JStr ''p1'')]) master idle
     = (Inl ObjectNotFound,
        \<lparr>trace = [SchemaLoad,
                   Call (Remove ''test_Post'' (JObj [(''objectId'', JStr ''p1'')])) (Inr (removed 0))],
         schemaPromise = False\<rparr>) \<and>
   destroy (stub_env (\<lambda>log c. Inr (removed 0))) ''_Session'' (JObj [(''objectId'', JStr ''s1'')]) master idle
     = (Inr JUndefined,
        \<lparr>trace = [SchemaLoad,
                   Call (Remove ''test__Session'' (JObj [(''objectId'', JStr ''s1'')])) (Inr (removed 0))],
         schemaPromise = False\<rparr>) \<and>
   destroy (stub_env (\<lambda>log c. Inr (removed 2))) ''Post'' (JObj [(''objectId'', JStr ''p1'')]) master idle
     = (Inr JUndefined,
        \<lparr>trace = [SchemaLoad,
                   Call (Remove ''test_Post'' (JObj [(''objectId'', JStr ''p1'')])) (Inr (removed 2))],
         schemaPromise = False\<rparr>)"
proof -
  let ?q = "JObj [(''objectId'', JStr ''p1'')]"
  let ?s = "JObj [(''objectId'', JStr ''s1'')]"
  let ?e0 = "stub_env (\<lambda>log c. Inr (removed 0))"
  let ?e2 = "stub_env (\<lambda>log c. Inr (removed 2))"
  let ?w1 = "\<lparr>trace = [SchemaLoad], schemaPromise = False\<rparr>"
  have a: "destroy ?e0 ''Post'' ?q master idle
             = (Inl ObjectNotFound,
                \<lparr>trace = [SchemaLoad, Call (Remove ''test_Post'' ?q) (Inr (removed 0))],
                 schemaPromise = False\<rparr>)"
    using destroy_zero_removed[of ?e0 idle stub_schema ?w1 master "''Post''" ?q ?q
        "Remove ''test_Post'' ?q" "removed 0" "JObj [(''n'', JNum 0)]" 0]
    by (simp add: run_simps obj_simps removed_def)
  have b: "destroy ?e0 ''_Session'' ?s master idle
             = (Inr JUndefined,
                \<lparr>trace = [SchemaLoad, Call (Remove ''test__Session'' ?s) (Inr (removed 0))],
                 schemaPromise = False\<rparr>)"
    using destroy_zero_removed[of ?e0 idle stub_schema ?w1 master "''_Session''" ?s ?s
        "Remove ''test__Session'' ?s" "removed 0" "JObj [(''n'', JNum 0)]" 0]
    by (simp add: run_simps obj_simps removed_def)
  have c: "destroy ?e2 ''Post'' ?q master idle
             = (Inr JUndefined,
                \<lparr>trace = [SchemaLoad, Call (Remove ''test_Post'' ?q) (Inr (removed 2))],
                 schemaPromise = False\<rparr>)"
    using destroy_zero_removed[of ?e2 idle stub_schema ?w1 master "''Post''" ?q ?q
        "Remove ''test_Post'' ?q" "removed 2" "JObj [(''n'', JNum 2)]" 2]
    by (simp add: run_simps obj_simps removed_def)
  from a b c show ?thesis by simp
qed




















text \<open>
  Let the underlying find fail. If the error is not of the missing-geo-index class
  (code 17007 with a message about \<^verbatim>\<open>geoNear\<close>), it is the outcome and nothing else is
  called. If it is, and the pattern \<^verbatim>\<open>/field=([A-Za-z_0-9]+) /\<close> reads a field name in its
  message, the next call creates a \<^verbatim>\<open>2d\<close> index on that field; when this succeeds the
  same find is issued once more and its outcome, a result or an error, is the outcome of
  \<^verbatim>\<open>find\<close>; when it fails, its error is. If the pattern reads no field name, \<^verbatim>\<open>find\<close>
  fails with a TypeError after the one call.
\<close>

lemma find_geo_retry:
  assumes call: "lookup = RawFind coll query (JObj [(''skip'', skip), (''limit'', limit), (''sort'', order)])"
      and index: "\<And>key. index key = CreateIndex coll (JObj [(key, JStr ''2d'')])"
      and first: "driver env (trace w) lookup = Inl error"
      and run: "MongoCollection_find env coll query skip limit order w = (r, w')"
  shows "(not_geo_error error \<longrightarrow>
            r = Inl error \<and> trace w' = trace w @ [Call lookup (Inl error)]) \<and>
         (\<forall>key. \<not> not_geo_error error \<and> match_field (error_message error) = Some key \<longrightarrow>
            (case driver env (trace w @ [Call lookup (Inl error)]) (index key) of
               Inl e \<Rightarrow>
                 r = Inl e \<and>
                 trace w' = trace w @ [Call lookup (Inl error), Call (index key) (Inl e)]
             | Inr made \<Rightarrow>
                 r = driver env (trace w @ [Call lookup (Inl error), Call (index key) (Inr made)]) lookup \<and>
                 trace w' = trace w @ [Call lookup (Inl error), Call (index key) (Inr made), Call lookup r])) \<and>
         (\<not> not_geo_error error \<and> match_field (error_message error) = None \<longrightarrow>
            r = Inl TypeError \<and> trace w' = trace w @ [Call lookup (Inl error)])"
proof (intro conjI allI impI)
  assume "not_geo_error error"
  with run first call show "r = Inl error"
    by (auto simp: MongoCollection_find_def rawFind_def perform_def Let_def)
next
  assume "not_geo_error error"
  with run first call show "trace w' = trace w @ [Call lookup (Inl error)]"
    by (auto simp: MongoCollection_find_def rawFind_def perform_def Let_def)
next
  fix key
  assume a: "\<not> not_geo_error error \<and> match_field (error_message error) = Some key"
  have nonempty: "k \<noteq> []" if "field_at s = Some k" for s k
    using that by (auto simp: field_at_def Let_def split: if_splits list.splits prod.splits)
  have "match_field s = Some k \<Longrightarrow> k \<noteq> []" for s k
    by (induction s) (auto split: option.splits dest: nonempty)
  with a have k: "key \<noteq> []" by blast
  show "case driver env (trace w @ [Call lookup (Inl error)]) (index key) of
          Inl e \<Rightarrow>
            r = Inl e \<and>
            trace w' = trace w @ [Call lookup (Inl error), Call (index key) (Inl e)]
        | Inr made \<Rightarrow>
            r = driver env (trace w @ [Call lookup (Inl error), Call (index key) (Inr made)]) lookup \<and>
            trace w' = trace w @ [Call lookup (Inl error), Call (index key) (Inr made), Call lookup r]"
    using run first call a k index
    by (auto simp: MongoCollection_find_def rawFind_def perform_def and_then_def Let_def
             split: sum.splits)
next
  assume "\<not> not_geo_error error \<and> match_field (error_message error) = None"
  with run first call show "r = Inl TypeError"
    by (auto simp: MongoCollection_find_def rawFind_def perform_def Let_def)
next
  assume "\<not> not_geo_error error \<and> match_field (error_message error) = None"
  with run first call show "trace w' = trace w @ [Call lookup (Inl error)]"
    by (auto simp: MongoCollection_find_def rawFind_def perform_def Let_def)
qed

definition no_geo_index :: error where
  "no_geo_index = StoreError 17007
     ''planner returned error: unable to find index for $geoNear query, field=location maxdist=1''"

definition indexing_store :: "event list \<Rightarrow> call \<Rightarrow> error + json" where
  "indexing_store log c =
     (case c of
        RawFind coll query opts \<Rightarrow>
          if log = [] then Inl no_geo_index
          else Inr (JArr [JObj [(''_id'', JStr ''a'')]])
      | _ \<Rightarrow> Inr JNull)"

lemma no_geo_index_class: "\<not> not_geo_error no_geo_index"
  by code_simp

lemma no_geo_index_field: "match_field (error_message no_geo_index) = Some ''location''"
  by code_simp

lemma find_geo_retry_example:
  "fst (MongoCollection_find (stub_env indexing_store) ''test_Place'' (JObj [(''loc'', JStr ''near'')])
          JUndefined JUndefined JUndefined idle)
     = Inr (JArr [JObj [(''_id'', JStr ''a'')]]) \<and>
   trace (snd (MongoCollection_find (stub_env indexing_store) ''test_Place''
                 (JObj [(''loc'', JStr ''near'')]) JUndefined JUndefined JUndefined idle))
     = [Call (RawFind ''test_Place'' (JObj [(''loc'', JStr ''near'')])
                (JObj [(''skip'', JUndefined), (''limit'', JUndefined), (''sort'', JUndefined)]))
             (Inl no_geo_index),
        Call (CreateIndex ''test_Place'' (JObj [(''location'', JStr ''2d'')])) (Inr JNull),
        Call (RawFind ''test_Place'' (JObj [(''loc'', JStr ''near'')])
                (JObj [(''skip'', JUndefined), (''limit'', JUndefined), (''sort'', JUndefined)]))
             (Inr (JArr [JObj [(''_id'', JStr ''a'')]]))]"
proof -
  let ?q = "JObj [(''loc'', JStr ''near'')]"
  let ?f = "RawFind ''test_Place'' ?q
              (JObj [(''skip'', JUndefined), (''limit'', JUndefined), (''sort'', JUndefined)])"
  let ?i = "\<lambda>key. CreateIndex ''test_Place'' (JObj [(key, JStr ''2d'')])"
  let ?run = "MongoCollection_find (stub_env indexing_store) ''test_Place'' ?q
                JUndefined JUndefined JUndefined idle"
  have first: "driver (stub_env indexing_store) (trace idle) ?f = Inl no_geo_index"
    by (simp add: stub_env_def indexing_store_def idle_def)
  have run: "?run = (fst ?run, snd ?run)" by simp
  from find_geo_retry[of ?f "''test_Place''" ?q JUndefined JUndefined JUndefined ?i
        "stub_env indexing_store" idle no_geo_index "fst ?run" "snd ?run", OF refl refl first run]
       no_geo_index_class no_geo_index_field
  show ?thesis
    by (simp add: stub_env_def indexing_store_def idle_def)
qed

text \<open>
  Claim C7 fails on the code when the detail of a missing-geo-index error names a field
  that the pattern \<^verbatim>\<open>/field=([A-Za-z_0-9]+) /\<close> cannot read, such as the dotted path
  \<^verbatim>\<open>loc.point\<close>, or names none. Then \<^verbatim>\<open>match(...)\<close> is \<^verbatim>\<open>null\<close> and indexing it
  throws a TypeError in the error handler: no index is created, the find is not retried,
  and the caller gets the TypeError instead of the error of the store. The check
  \<^verbatim>\<open>if (!key) throw error\<close> that follows was meant to pass the error of the store on,
  and is never reached.
\<close>

theorem find_geo_field_unreadable:
  "MongoCollection_find
     (stub_env (\<lambda>log c. Inl (StoreError 17007
        ''unable to find index for $geoNear query, field=loc.point maxdist=1'')))
     ''test_Place'' (JObj [(''loc'', JStr ''near'')]) JUndefined JUndefined JUndefined idle
   = (Inl TypeError,
      \<lparr>trace = [Call (RawFind ''test_Place'' (JObj [(''loc'', JStr ''near'')])
                         (JObj [(''skip'', JUndefined), (''limit'', JUndefined), (''sort'', JUndefined)]))
                     (Inl (StoreError 17007
                        ''unable to find index for $geoNear query, field=loc.point maxdist=1''))],
       schemaPromise = False\<rparr>) \<and>
   MongoCollection_find
     (stub_env (\<lambda>log c. Inl (StoreError 17007 ''unable to find index for $geoNear query'')))
     ''test_Place'' (JObj [(''loc'', JStr ''near'')]) JUndefined JUndefined JUndefined idle
   = (Inl TypeError,
      \<lparr>trace = [Call (RawFind ''test_Place'' (JObj [(''loc'', JStr ''near'')])
                         (JObj [(''skip'', JUndefined), (''limit'', JUndefined), (''sort'', JUndefined)]))
                     (Inl (StoreError 17007 ''unable to find index for $geoNear query''))],
       schemaPromise = False\<rparr>)"
  by (simp add: MongoCollection_find_def rawFind_def perform_def stub_env_def idle_def Let_def
        geoNear_at_def starts_with_def field_at_def word_char_def)

text \<open>
  The values the payload loses, in the words of claim C10: an \<^verbatim>\<open>AddRelation\<close> operator, a
  \<^verbatim>\<open>RemoveRelation\<close> operator, or a \<^verbatim>\<open>Batch\<close> operator that contains one, at any depth.
\<close>

definition is_op :: "json \<Rightarrow> string \<Rightarrow> bool" where
  "is_op v name = loose_eq (get v ''__op'') name"

lemma element_jsize:
  assumes "named k" "iterate (get v k) = Inr xs" "x \<in> set xs"
  shows "jsize x < jsize v"
proof -
  from assms(3) have "2 * jsize x + 2 \<le> (\<Sum>x\<leftarrow>xs. 2 * jsize x + 2)"
    by (induction xs) auto
  with get_iterate_jsize[OF assms(1,2)] show ?thesis by simp
qed

function relation_mutation :: "json \<Rightarrow> bool" where
  "relation_mutation v =
     (is_op v ''AddRelation'' \<or> is_op v ''RemoveRelation'' \<or>
      (is_op v ''Batch'' \<and>
       (case iterate (get v ''ops'') of
          Inl e \<Rightarrow> False
        | Inr ops \<Rightarrow> list_ex relation_mutation ops)))"
  by pat_completeness auto
termination
proof (relation "measure jsize", goal_cases)
  case 1
  show ?case by simp
next
  case (2 v ops x)
  have "named ''ops''" by (simp add: named_def)
  moreover from 2 have "iterate (get v ''ops'') = Inr ops" "x \<in> set ops" by simp_all
  ultimately show ?case using element_jsize by simp
qed

declare relation_mutation.simps [simp del]

lemma is_op_truthy: "is_op v name \<Longrightarrow> truthy v"
  by (cases v) (auto simp: is_op_def get_def indexed_named named_def)

lemma relation_block_deleteMe:
  "relation_block relation op key acc = (None, acc') \<Longrightarrow> snd acc' = snd acc @ [key]"
  by (auto simp: relation_block_def split: sum.splits prod.splits option.splits)

lemma relation_blocks_deleteMe:
  assumes "relation_blocks env className objectId op key acc = (None, acc')"
  shows "set (snd acc') =
           set (snd acc) \<union> (if is_op op ''AddRelation'' \<or> is_op op ''RemoveRelation'' then {key} else {})"
proof -
  let ?add = "relation_block (addRelation env key className objectId) op key acc"
  show ?thesis
  proof (cases "is_op op ''AddRelation''")
    case add: True
    obtain acc1 where a: "?add = (None, acc1)"
      using assms add by (auto simp: relation_blocks_def is_op_def split: prod.splits option.splits)
    from relation_block_deleteMe[OF a] have s1: "snd acc1 = snd acc @ [key]" .
    show ?thesis
    proof (cases "is_op op ''RemoveRelation''")
      case True
      with assms add a
      have "relation_block (removeRelation env key className objectId) op key acc1 = (None, acc')"
        by (simp add: relation_blocks_def is_op_def)
      from relation_block_deleteMe[OF this] s1 add show ?thesis by auto
    next
      case False
      with assms add a have "acc' = acc1" by (simp add: relation_blocks_def is_op_def)
      with s1 add show ?thesis by auto
    qed
  next
    case noadd: False
    show ?thesis
    proof (cases "is_op op ''RemoveRelation''")
      case True
      with assms noadd
      have "relation_block (removeRelation env key className objectId) op key acc = (None, acc')"
        by (simp add: relation_blocks_def is_op_def)
      from relation_block_deleteMe[OF this] True show ?thesis by auto
    next
      case False
      with assms noadd show ?thesis by (simp add: relation_blocks_def is_op_def)
    qed
  qed
qed

lemma process_deleteMe:
  "process env className objectId op key acc = (None, acc') \<Longrightarrow>
     set (snd acc') = set (snd acc) \<union> (if relation_mutation op then {key} else {})"
  "process_ops env className objectId ops key acc = (None, acc') \<Longrightarrow>
     set (snd acc') = set (snd acc) \<union> (if list_ex relation_mutation ops then {key} else {})"
proof (induction env className objectId op key acc and env className objectId ops key acc
       arbitrary: acc' and acc' rule: process_process_ops.induct)
  case (1 env className objectId op key acc)
  show ?case
  proof (cases "truthy op")
    case False
    with 1(2) have "acc' = acc" by simp
    moreover from False is_op_truthy have "\<not> relation_mutation op"
      by (auto simp: relation_mutation.simps[of op])
    ultimately show ?thesis by simp
  next
    case True
    obtain e acc2 where b: "relation_blocks env className objectId op key acc = (e, acc2)"
      by (cases "relation_blocks env className objectId op key acc")
    with True 1(2) have e: "e = None" by (cases e) auto
    from relation_blocks_deleteMe[OF b[unfolded e]]
    have s2: "set (snd acc2) =
                set (snd acc) \<union> (if is_op op ''AddRelation'' \<or> is_op op ''RemoveRelation'' then {key} else {})" .
    show ?thesis
    proof (cases "is_op op ''Batch''")
      case False
      with True b e 1(2) have "acc' = acc2" by (simp add: is_op_def)
      with s2 False show ?thesis by (auto simp: relation_mutation.simps[of op])
    next
      case batch: True
      then have lb: "loose_eq (get op ''__op'') ''Batch''" by (simp add: is_op_def)
      show ?thesis
      proof (cases "iterate (get op ''ops'')")
        case (Inl err)
        with True b e lb 1(2) show ?thesis by simp
      next
        case (Inr ops)
        with True b e lb 1(2) have p: "process_ops env className objectId ops key acc2 = (None, acc')"
          by simp
        from 1(1)[OF _ b[unfolded e, symmetric] refl lb Inr p] True
        have "set (snd acc') = set (snd acc2) \<union> (if list_ex relation_mutation ops then {key} else {})"
          by simp
        with s2 batch Inr show ?thesis by (auto simp: relation_mutation.simps[of op])
      qed
    qed
  qed
next
  case (2 env className objectId key acc)
  then show ?case by simp
next
  case (3 env className objectId x xs key acc)
  obtain e acc1 where p: "process env className objectId x key acc = (e, acc1)"
    by (cases "process env className objectId x key acc")
  with 3(3) have e: "e = None" by (cases e) auto
  from 3(1)[OF p[unfolded e]]
  have s1: "set (snd acc1) = set (snd acc) \<union> (if relation_mutation x then {key} else {})" .
  from 3(3) p e have q: "process_ops env className objectId xs key acc1 = (None, acc')" by simp
  from 3(2)[OF p[unfolded e, symmetric] refl q] s1 show ?case by auto
qed

lemma process_keys_deleteMe:
  "process_keys env className objectId payload keys acc = (None, acc') \<Longrightarrow>
     set (snd acc') = set (snd acc) \<union> {key \<in> set keys. relation_mutation (obj_get payload key)}"
proof (induction keys arbitrary: acc)
  case Nil
  then show ?case by simp
next
  case (Cons key keys)
  obtain e acc1 where p: "process env className objectId (obj_get payload key) key acc = (e, acc1)"
    by (cases "process env className objectId (obj_get payload key) key acc")
  with Cons(2) have e: "e = None" by (cases e) auto
  from process_deleteMe(1)[OF p[unfolded e]]
  have s1: "set (snd acc1) =
              set (snd acc) \<union> (if relation_mutation (obj_get payload key) then {key} else {})" .
  from Cons(2) p e have "process_keys env className objectId payload keys acc1 = (None, acc')"
    by simp
  from Cons(1)[OF this] s1 show ?case by auto
qed

lemma foldl_obj_delete:
  "foldl obj_delete payload keys = filter (\<lambda>kv. fst kv \<notin> set keys) payload"
proof (induction keys arbitrary: payload)
  case Nil
  then show ?case by simp
next
  case (Cons key keys)
  have "filter (\<lambda>kv. fst kv \<notin> set keys) (obj_delete payload key)
          = filter (\<lambda>kv. fst kv \<notin> set (key # keys)) payload"
    by (induction payload) (auto simp: obj_delete_def)
  with Cons show ?case by simp
qed

lemma obj_get_distinct:
  "distinct (map fst payload) \<Longrightarrow> kv \<in> set payload \<Longrightarrow> obj_get payload (fst kv) = snd kv"
  by (cases kv) (simp add: obj_get_def)

text \<open>
  Claim C10. When \<^verbatim>\<open>handleRelationUpdates\<close> resolves, the payload it leaves behind is the
  given payload without exactly the top-level keys whose value is an \<^verbatim>\<open>AddRelation\<close>
  operator, a \<^verbatim>\<open>RemoveRelation\<close> operator or a \<^verbatim>\<open>Batch\<close> containing one; the other
  entries are unchanged and in place. A \<^verbatim>\<open>Batch\<close> key goes as a whole, with the operators
  beside the relation operator in it.
\<close>

theorem handleRelationUpdates_deletes:
  assumes run: "handleRelationUpdates env className objectId payload w = (Inr payload', w')"
      and keys: "distinct (map fst payload)"
  shows "payload' = filter (\<lambda>kv. \<not> relation_mutation (snd kv)) payload"
proof -
  let ?oid = "if truthy (obj_get payload ''objectId'') then obj_get payload ''objectId'' else objectId"
  obtain e pending deleteMe where
    s: "process_keys env className ?oid payload (map fst payload) ([], []) = (e, (pending, deleteMe))"
    by (cases "process_keys env className ?oid payload (map fst payload) ([], [])") auto
  from run s have e: "e = None"
    by (cases e) (auto simp: handleRelationUpdates_def Let_def split: prod.splits)
  from run s e have p: "payload' = foldl obj_delete payload deleteMe"
    by (auto simp: handleRelationUpdates_def Let_def and_then_def resolve_def
             split: prod.splits sum.splits)
  from process_keys_deleteMe[OF s[unfolded e]]
  have d: "set deleteMe = {key \<in> set (map fst payload). relation_mutation (obj_get payload key)}"
    by simp
  have "filter (\<lambda>kv. fst kv \<notin> set deleteMe) payload
          = filter (\<lambda>kv. \<not> relation_mutation (snd kv)) payload"
  proof (rule filter_cong[OF refl])
    fix kv assume m: "kv \<in> set payload"
    from obj_get_distinct[OF keys m] d m
    show "(fst kv \<notin> set deleteMe) = (\<not> relation_mutation (snd kv))" by auto
  qed
  with p show ?thesis by (simp add: foldl_obj_delete)
qed

definition sample_update :: obj where
  "sample_update =
     [(''title'', JStr ''A''),
      (''likes'', JObj [(''__op'', JStr ''AddRelation''),
                        (''objects'', JArr [JObj [(''objectId'', JStr ''u1'')]])]),
      (''mixed'', JObj [(''__op'', JStr ''Batch''),
                        (''ops'', JArr [JObj [(''__op'', JStr ''Increment''), (''amount'', JNum 1)],
                                        JObj [(''__op'', JStr ''RemoveRelation''),
                                              (''objects'', JArr [JObj [(''objectId'', JStr ''u2'')]])]])]),
      (''count'', JObj [(''__op'', JStr ''Increment''), (''amount'', JNum 2)])]"

theorem handleRelationUpdates_deletes_witness:
  "fst (handleRelationUpdates (stub_env (\<lambda>log c. Inr JNull)) ''Post'' (JStr ''p1'') sample_update idle)
     = Inr [(''title'', JStr ''A''),
            (''count'', JObj [(''__op'', JStr ''Increment''), (''amount'', JNum 2)])]"
proof -
  let ?run = "handleRelationUpdates (stub_env (\<lambda>log c. Inr JNull)) ''Post'' (JStr ''p1'')
                sample_update idle"
  have ok: "fst ?run = Inr (case fst ?run of Inr x \<Rightarrow> x | Inl e \<Rightarrow> [])"
    by (simp add: handleRelationUpdates_def relation_blocks_def relation_block_def
          addRelation_def removeRelation_def relation_doc_def get_def sample_update_def
          run_simps obj_simps)
  then have run: "?run = (Inr (case fst ?run of Inr x \<Rightarrow> x | Inl e \<Rightarrow> []), snd ?run)"
    by (metis prod.collapse)
  have keys: "distinct (map fst sample_update)"
    by (simp add: sample_update_def)
  from handleRelationUpdates_deletes[OF run keys]
  have "(case fst ?run of Inr x \<Rightarrow> x | Inl e \<Rightarrow> [])
          = filter (\<lambda>kv. \<not> relation_mutation (snd kv)) sample_update" .
  also have "\<dots> = [(''title'', JStr ''A''),
                    (''count'', JObj [(''__op'', JStr ''Increment''), (''amount'', JNum 2)])]"
    by (simp add: sample_update_def relation_mutation.simps is_op_def get_def obj_simps)
  finally show ?thesis using ok by simp
qed









text \<open>The log of the second state extends that of the first by reads of the schema only.\<close>

definition schema_reads_only :: "world \<Rightarrow> world \<Rightarrow> bool" where
  "schema_reads_only w w1 = (\<exists>n. trace w1 = trace w @ replicate n SchemaLoad)"

lemma denied:
  assumes "opt_acl options \<noteq> None" "\<not> permits schema className (aclGroup options) action"
  shows "check_permission schema options className action w = (Inl PermissionDenied, w)"
  using assms by (simp add: check_permission_def isMaster_def validatePermission_def lift_def)

definition as_user :: "string \<Rightarrow> options" where
  "as_user user = master\<lparr>opt_acl := Some (Some [user])\<rparr>"

text \<open>
  Claim C1 as stated fails for \<^verbatim>\<open>find\<close>: the sort keys are translated before the
  permission check, so when the translator throws on a sort key, a caller without
  permission gets the translator's error and not \<^verbatim>\<open>PermissionDenied\<close>.
\<close>

theorem find_sort_before_permission_counterexample:
  "DatabaseController_find
     ((stub_env (\<lambda>log c. Inr JNull))
        \<lparr>transformKey := (\<lambda>schema className key. Inl (OtherError ''invalid key name''))\<rparr>)
     ''Post'' (JObj [(''title'', JStr ''A'')])
     ((as_user ''u1'')\<lparr>opt_sort := Some [(''bad key'', JNum 1)]\<rparr>) idle
   = (Inl (OtherError ''invalid key name''), \<lparr>trace = [SchemaLoad], schemaPromise = False\<rparr>) \<and>
   \<not> permits stub_schema ''Post''
       (aclGroup ((as_user ''u1'')\<lparr>opt_sort := Some [(''bad key'', JNum 1)]\<rparr>)) ''find''"
  by (simp add: DatabaseController_find_def mongo_sort_def as_user_def run_simps)

text \<open>
  Claim C1, amended. Let the options carry an \<^verbatim>\<open>acl\<close> key, let the schema load of the
  operation yield a schema, and let that schema not permit the caller's group the action
  of the operation (\<^verbatim>\<open>update\<close>, \<^verbatim>\<open>delete\<close>, \<^verbatim>\<open>create\<close>, and \<^verbatim>\<open>get\<close> or \<^verbatim>\<open>find\<close>
  as the query has it). Then the operation fails in the very state the schema load left:
  nothing but reads of the schema was logged, so no relation table was read or written and
  no find, insert, update or remove reached the driver. An update, a destroy and a create
  fail with \<^verbatim>\<open>PermissionDenied\<close>. A find fails with \<^verbatim>\<open>PermissionDenied\<close> too, except when
  translating one of its sort keys throws: then it fails with the translator's error.
\<close>

theorem permission_denied_first:
  assumes acl: "opt_acl options \<noteq> None"
  shows "(loadSchema env (update_acceptor className query) w = (Inr schema, w1) \<longrightarrow>
            \<not> permits schema className (aclGroup options) ''update'' \<longrightarrow>
            update env className query payload options w = (Inl PermissionDenied, w1) \<and>
            schema_reads_only w w1) \<and>
         (loadSchema env returnsTrue w = (Inr schema, w1) \<longrightarrow>
            \<not> permits schema className (aclGroup options) ''delete'' \<longrightarrow>
            destroy env className query options w = (Inl PermissionDenied, w1) \<and>
            schema_reads_only w w1) \<and>
         (loadSchema env returnsTrue w = (Inr schema, w1) \<longrightarrow>
            \<not> permits schema className (aclGroup options) ''create'' \<longrightarrow>
            create env className payload options w = (Inl PermissionDenied, w1) \<and>
            schema_reads_only w w1) \<and>
         (loadSchema env (find_acceptor className query) w = (Inr schema, w1) \<longrightarrow>
            find_action query = Inr action \<longrightarrow>
            \<not> permits schema className (aclGroup options) action \<longrightarrow>
            DatabaseController_find env className query options w =
              (Inl (case mongo_sort env schema className options of
                      Inl e \<Rightarrow> e
                    | Inr order \<Rightarrow> PermissionDenied), w1) \<and>
            schema_reads_only w w1)"
proof (intro conjI impI)
  assume l: "loadSchema env (update_acceptor className query) w = (Inr schema, w1)"
     and d: "\<not> permits schema className (aclGroup options) ''update''"
  from l denied[OF acl d]
  show "update env className query payload options w = (Inl PermissionDenied, w1)"
    by (simp add: update_def and_then_def)
  from loadSchema_trace[OF l] show "schema_reads_only w w1" by (simp add: schema_reads_only_def)
next
  assume l: "loadSchema env returnsTrue w = (Inr schema, w1)"
     and d: "\<not> permits schema className (aclGroup options) ''delete''"
  from l denied[OF acl d]
  show "destroy env className query options w = (Inl PermissionDenied, w1)"
    by (simp add: destroy_def and_then_def)
  from loadSchema_trace[OF l] show "schema_reads_only w w1" by (simp add: schema_reads_only_def)
next
  assume l: "loadSchema env returnsTrue w = (Inr schema, w1)"
     and d: "\<not> permits schema className (aclGroup options) ''create''"
  from l denied[OF acl d]
  show "create env className payload options w = (Inl PermissionDenied, w1)"
    by (simp add: create_def and_then_def)
  from loadSchema_trace[OF l] show "schema_reads_only w w1" by (simp add: schema_reads_only_def)
next
  assume l: "loadSchema env (find_acceptor className query) w = (Inr schema, w1)"
     and a: "find_action query = Inr action"
     and d: "\<not> permits schema className (aclGroup options) action"
  from acl a d have "find_permission schema options className query w1 = (Inl PermissionDenied, w1)"
    by (simp add: find_permission_def isMaster_def validatePermission_def lift_def and_then_def)
  with l
  show "DatabaseController_find env className query options w =
          (Inl (case mongo_sort env schema className options of
                  Inl e \<Rightarrow> e
                | Inr order \<Rightarrow> PermissionDenied), w1)"
    by (simp add: DatabaseController_find_def and_then_def lift_def Let_def split: sum.splits)
  from loadSchema_trace[OF l] show "schema_reads_only w w1" by (simp add: schema_reads_only_def)
qed

theorem permission_denied_first_witness:
  "update (stub_env (\<lambda>log c. Inr JNull)) ''Post'' (JObj [(''objectId'', JStr ''p1'')])
      [(''title'', JStr ''B'')] (as_user ''u1'') idle
     = (Inl PermissionDenied, \<lparr>trace = [SchemaLoad], schemaPromise = False\<rparr>) \<and>
   destroy (stub_env (\<lambda>log c. Inr JNull)) ''Post'' (JObj [(''objectId'', JStr ''p1'')])
      (as_user ''u1'') idle
     = (Inl PermissionDenied, \<lparr>trace = [SchemaLoad], schemaPromise = False\<rparr>) \<and>
   create (stub_env (\<lambda>log c. Inr JNull)) ''Post'' [(''title'', JStr ''A'')] (as_user ''u1'') idle
     = (Inl PermissionDenied, \<lparr>trace = [SchemaLoad], schemaPromise = False\<rparr>) \<and>
   DatabaseController_find (stub_env (\<lambda>log c. Inr JNull)) ''Post''
      (JObj [(''$relatedTo'', JObj [(''object'', JObj [(''className'', JStr ''Post''),
                                                       (''objectId'', JStr ''p1'')]),
                                    (''key'', JStr ''likes'')])])
      ((as_user ''u1'')\<lparr>opt_sort := Some [(''title'', JNum 1)]\<rparr>) idle
     = (Inl PermissionDenied, \<lparr>trace = [SchemaLoad], schemaPromise = False\<rparr>)"
proof -
  let ?e = "stub_env (\<lambda>log c. Inr JNull)"
  let ?q = "JObj [(''objectId'', JStr ''p1'')]"
  let ?r = "JObj [(''$relatedTo'', JObj [(''object'', JObj [(''className'', JStr ''Post''),
                                                            (''objectId'', JStr ''p1'')]),
                                         (''key'', JStr ''likes'')])]"
  let ?w1 = "\<lparr>trace = [SchemaLoad], schemaPromise = False\<rparr>"
  let ?sorted = "(as_user ''u1'')\<lparr>opt_sort := Some [(''title'', JNum 1)]\<rparr>"
  have acl: "opt_acl (as_user ''u1'') \<noteq> None" "opt_acl ?sorted \<noteq> None"
    by (simp_all add: as_user_def)
  have no: "\<not> permits stub_schema ''Post'' (aclGroup (as_user ''u1'')) action"
           "\<not> permits stub_schema ''Post'' (aclGroup ?sorted) action" for action
    by (simp_all add: stub_schema_def aclGroup_def as_user_def)
  have l: "loadSchema ?e acceptor idle = (Inr stub_schema, ?w1)" for acceptor
    by (simp add: run_simps)
  have s: "mongo_sort ?e stub_schema ''Post'' ?sorted = Inr (JObj [(''title'', JNum 1)])"
    by (simp add: mongo_sort_def as_user_def master_def stub_env_def)
  have a: "find_action ?r = Inr ''find''"
    by (simp add: find_action_def object_keys_def get_def obj_simps)
  from permission_denied_first[OF acl(1), where env = ?e and className = "''Post''"
         and query = ?q and w = idle and schema = stub_schema and ?w1.0 = ?w1
         and payload = "[(''title'', JStr ''B'')]" and action = "''get''"] l no
  have u: "update ?e ''Post'' ?q [(''title'', JStr ''B'')] (as_user ''u1'') idle = (Inl PermissionDenied, ?w1)"
    and d: "destroy ?e ''Post'' ?q (as_user ''u1'') idle = (Inl PermissionDenied, ?w1)"
    by simp_all
  from permission_denied_first[OF acl(1), where env = ?e and className = "''Post''"
         and query = ?r and w = idle and schema = stub_schema and ?w1.0 = ?w1
         and payload = "[(''title'', JStr ''A'')]" and action = "''find''"] l no
  have c: "create ?e ''Post'' [(''title'', JStr ''A'')] (as_user ''u1'') idle = (Inl PermissionDenied, ?w1)"
    by simp
  from permission_denied_first[OF acl(2), where env = ?e and className = "''Post''"
         and query = ?r and w = idle and schema = stub_schema and ?w1.0 = ?w1
         and payload = "[(''title'', JStr ''A'')]" and action = "''find''"] l no s a
  have f: "DatabaseController_find ?e ''Post'' ?r ?sorted idle = (Inl PermissionDenied, ?w1)"
    by simp
  from u d c f show ?thesis by simp
qed

lemma reduceRelationKeys_plain:
  assumes "\<not> truthy (obj_get query ''$or'')" "\<not> truthy (obj_get query ''$relatedTo'')"
  shows "reduceRelationKeys env className (JObj query) w = (Inr (JObj query), w)"
  using assms by (simp add: reduceRelationKeys.simps)

text \<open>
  When no \<^verbatim>\<open>$or\<close> stands beside it, a \<^verbatim>\<open>$relatedTo\<close> clause whose related ids are found
  is resolved as the comment above \<^verbatim>\<open>reduceRelationKeys\<close> says: \<^verbatim>\<open>objectId\<close> becomes
  \<^verbatim>\<open>{$in: queryIn}\<close>, where \<^verbatim>\<open>queryIn\<close> is the former \<^verbatim>\<open>objectId.$in\<close>, or the empty
  array when that was falsy, extended by the related ids with \<^verbatim>\<open>concat\<close> (so an
  \<^verbatim>\<open>objectId\<close> of any other shape is dropped); \<^verbatim>\<open>$relatedTo\<close> is gone and every other
  key is as before. \<^verbatim>\<open>concat\<close> extends an array by the ids and a string by their text; on
  any other truthy value it is a TypeError, and the rewrite fails with it.
\<close>

lemma reduceRelationKeys_replaces_objectId:
  assumes no_or: "\<not> truthy (obj_get query ''$or'')"
      and rel: "truthy (obj_get query ''$relatedTo'')"
      and args: "relatedTo_args (obj_get query ''$relatedTo'') = Inr (relatedClass, key, owner)"
      and found: "relatedIds env relatedClass key owner w = (Inr ids, w1)"
      and prior: "prior = get (obj_get query ''objectId'') ''$in''"
  shows "case concat_ids (if truthy prior then prior else JArr []) ids of
           Inl e \<Rightarrow> reduceRelationKeys env className (JObj query) w = (Inl e, w1)
         | Inr queryIn \<Rightarrow>
             (\<exists>query'. reduceRelationKeys env className (JObj query) w = (Inr (JObj query'), w1) \<and>
                obj_get query' ''objectId'' = JObj [(''$in'', queryIn)] \<and>
                obj_get query' ''$relatedTo'' = JUndefined \<and>
                (\<forall>k. k \<noteq> ''objectId'' \<and> k \<noteq> ''$relatedTo'' \<longrightarrow>
                     obj_get query' k = obj_get query k))"
proof -
  let ?q1 = "obj_delete query ''$relatedTo''"
  let ?objectId = "if truthy (obj_get ?q1 ''objectId'') then obj_get ?q1 ''objectId'' else JObj []"
  let ?queryIn = "if truthy (get ?objectId ''$in'') then get ?objectId ''$in'' else JArr []"
  have same: "obj_get ?q1 ''objectId'' = obj_get query ''objectId''"
    by (simp add: obj_get_obj_delete)
  have "get ?objectId ''$in'' = get (obj_get query ''objectId'') ''$in''"
  proof (cases "truthy (obj_get query ''objectId'')")
    case True
    with same show ?thesis by simp
  next
    case False
    then have "get (obj_get query ''objectId'') ''$in'' = JUndefined"
      by (cases "obj_get query ''objectId''") (auto simp: get_def indexed_def obj_get_def)
    with False same show ?thesis by (simp add: get_def obj_get_def)
  qed
  with prior have q: "?queryIn = (if truthy prior then prior else JArr [])" by simp
  show ?thesis
  proof (cases "concat_ids (if truthy prior then prior else JArr []) ids")
    case (Inl e)
    with q have "resolve_relatedTo query ids = Inl e"
      by (simp add: resolve_relatedTo_def Let_def)
    with no_or rel args found
    have "reduceRelationKeys env className (JObj query) w = (Inl e, w1)"
      by (simp add: reduceRelationKeys.simps[of _ _ "JObj query"])
    with Inl show ?thesis by simp
  next
    case (Inr queryIn)
    with q obtain query' where
      r: "resolve_relatedTo query ids = Inr query'"
      and q': "query' = obj_set (obj_set ?q1 ''objectId'' ?objectId) ''objectId''
                          (JObj [(''$in'', queryIn)])"
      by (simp add: resolve_relatedTo_def Let_def)
    from q' have o: "obj_get query' ''objectId'' = JObj [(''$in'', queryIn)]"
      and others: "\<forall>k. k \<noteq> ''objectId'' \<and> k \<noteq> ''$relatedTo'' \<longrightarrow> obj_get query' k = obj_get query k"
      by (simp_all add: obj_get_obj_set obj_get_obj_delete)
    from resolve_relatedTo_keeps[OF r] no_or
    have k: "\<not> truthy (obj_get query' ''$or'')" "obj_get query' ''$relatedTo'' = JUndefined"
      by simp_all
    then have "reduceRelationKeys env className (JObj query') w1 = (Inr (JObj query'), w1)"
      using reduceRelationKeys_plain by simp
    with no_or rel args found r
    have "reduceRelationKeys env className (JObj query) w = (Inr (JObj query'), w1)"
      by (simp add: reduceRelationKeys.simps[of _ _ "JObj query"])
    with o k(2) others have
      "\<exists>query'. reduceRelationKeys env className (JObj query) w = (Inr (JObj query'), w1) \<and>
                obj_get query' ''objectId'' = JObj [(''$in'', queryIn)] \<and>
                obj_get query' ''$relatedTo'' = JUndefined \<and>
                (\<forall>k. k \<noteq> ''objectId'' \<and> k \<noteq> ''$relatedTo'' \<longrightarrow>
                     obj_get query' k = obj_get query k)"
      by blast
    with Inr show ?thesis by simp
  qed
qed

definition likes_of_p1 :: json where
  "likes_of_p1 =
     JObj [(''object'', JObj [(''className'', JStr ''Post''), (''objectId'', JStr ''p1'')]),
           (''key'', JStr ''likes'')]"

definition join_store :: "event list \<Rightarrow> call \<Rightarrow> error + json" where
  "join_store log c =
     (case c of
        RawFind coll query opts \<Rightarrow>
          if coll = ''test__Join:likes:Post''
          then Inr (JArr [JObj [(''owningId'', JStr ''p1''), (''relatedId'', JStr ''u1'')],
                          JObj [(''owningId'', JStr ''p1''), (''relatedId'', JStr ''u2'')]])
          else Inr (JArr [])
      | _ \<Rightarrow> Inr JNull)"

text \<open>
  A plain \<^verbatim>\<open>objectId\<close> is dropped, a prior \<^verbatim>\<open>$in\<close> array is extended, and a prior
  \<^verbatim>\<open>$in\<close> that is a number makes the rewrite fail: the join table has been read by then.
\<close>

lemma reduceRelationKeys_replaces_objectId_examples:
  "fst (reduceRelationKeys (stub_env join_store) ''User''
          (JObj [(''objectId'', JStr ''x''), (''$relatedTo'', likes_of_p1)]) idle)
     = Inr (JObj [(''objectId'', JObj [(''$in'', JArr [JStr ''u1'', JStr ''u2''])])])"
  "fst (reduceRelationKeys (stub_env join_store) ''User''
          (JObj [(''objectId'', JObj [(''$in'', JArr [JStr ''u0''])]), (''$relatedTo'', likes_of_p1)]) idle)
     = Inr (JObj [(''objectId'', JObj [(''$in'', JArr [JStr ''u0'', JStr ''u1'', JStr ''u2''])])])"
  "fst (reduceRelationKeys (stub_env join_store) ''User''
          (JObj [(''objectId'', JObj [(''$in'', JNum 7)]), (''$relatedTo'', likes_of_p1)]) idle)
     = Inl TypeError"
  by code_simp+

text \<open>
  Claim C9 fails on the code for a query that has \<^verbatim>\<open>$or\<close> beside \<^verbatim>\<open>$relatedTo\<close>:
  \<^verbatim>\<open>reduceRelationKeys\<close> returns after the \<^verbatim>\<open>$or\<close> branches, so the related ids are
  never looked up, the \<^verbatim>\<open>$relatedTo\<close> clause stays, and \<^verbatim>\<open>objectId\<close> is left as it was
  instead of being replaced by \<^verbatim>\<open>{$in: relatedIds}\<close>. The comment above the function says
  that it modifies the query so that it no longer has \<^verbatim>\<open>$relatedTo\<close>.
\<close>

theorem relatedTo_beside_or_keeps_objectId:
  "reduceRelationKeys (stub_env join_store) ''User''
     (JObj [(''$or'', JArr [JObj [(''name'', JStr ''a'')], JObj [(''name'', JStr ''b'')]]),
            (''objectId'', JStr ''x''),
            (''$relatedTo'', likes_of_p1)]) idle
   = (Inr (JObj [(''$or'', JArr [JObj [(''name'', JStr ''a'')], JObj [(''name'', JStr ''b'')]]),
                 (''objectId'', JStr ''x''),
                 (''$relatedTo'', likes_of_p1)]), idle)"
  by code_simp

text \<open>The two rewriting steps of \<^verbatim>\<open>find\<close>, one after the other.\<close>

definition reduce_relations :: "env \<Rightarrow> string \<Rightarrow> json \<Rightarrow> schema \<Rightarrow> (json \<times> json) io" where
  "reduce_relations env className query schema =
     and_then (reduceRelationKeys env className query)
       (\<lambda>query. reduceInRelation env className query schema)"

text \<open>
  Claim C2 fails on the code. Both rewriters return right after the \<^verbatim>\<open>$or\<close> branches, so
  a \<^verbatim>\<open>$relatedTo\<close> clause beside \<^verbatim>\<open>$or\<close> is still in the query after both steps, and
  the join table was never read. The comment above \<^verbatim>\<open>reduceRelationKeys\<close> says the query
  no longer has \<^verbatim>\<open>$relatedTo\<close> afterwards.
\<close>

theorem relatedTo_survives_beside_or:
  "fst (reduce_relations (stub_env join_store) ''User''
          (JObj [(''$or'', JArr [JObj [(''name'', JStr ''a'')], JObj [(''name'', JStr ''b'')]]),
                 (''$relatedTo'', likes_of_p1)]) stub_schema idle)
     = Inr (JObj [(''$or'', JArr [JObj [(''name'', JStr ''a'')], JObj [(''name'', JStr ''b'')]]),
                  (''$relatedTo'', likes_of_p1)],
            JArr [JUndefined, JUndefined]) \<and>
   trace (snd (reduce_relations (stub_env join_store) ''User''
          (JObj [(''$or'', JArr [JObj [(''name'', JStr ''a'')], JObj [(''name'', JStr ''b'')]]),
                 (''$relatedTo'', likes_of_p1)]) stub_schema idle)) = []"
  by code_simp

text \<open>Likewise a pointer on a relation field beside \<^verbatim>\<open>$or\<close> is left in the query.\<close>

lemma pointer_survives_beside_or:
  "fst (reduce_relations (stub_env join_store) ''Post''
          (JObj [(''$or'', JArr [JObj [(''title'', JStr ''a'')]]),
                 (''likes'', JObj [(''__type'', JStr ''Pointer''), (''className'', JStr ''_User''),
                                   (''objectId'', JStr ''u1'')])]) stub_schema idle)
     = Inr (JObj [(''$or'', JArr [JObj [(''title'', JStr ''a'')]]),
                  (''likes'', JObj [(''__type'', JStr ''Pointer''), (''className'', JStr ''_User''),
                                    (''objectId'', JStr ''u1'')])],
            JArr [JUndefined])"
  by code_simp

text \<open>
  And a branch of \<^verbatim>\<open>$or\<close> that is itself an \<^verbatim>\<open>$or\<close> query is overwritten by what
  \<^verbatim>\<open>Promise.all\<close> resolves to, an array of \<^verbatim>\<open>undefined\<close>: its predicates are lost.
\<close>

lemma nested_or_branch_lost:
  "fst (reduce_relations (stub_env join_store) ''User''
          (JObj [(''$or'', JArr [JObj [(''$or'', JArr [JObj [(''name'', JStr ''a'')],
                                                       JObj [(''name'', JStr ''b'')]])],
                                 JObj [(''name'', JStr ''c'')]])]) stub_schema idle)
     = Inr (JObj [(''$or'', JArr [JArr [JUndefined, JUndefined], JObj [(''name'', JStr ''c'')]])],
            JArr [JUndefined, JUndefined])"
  by code_simp

section \<open>loadSchema under interleaving\<close>

text \<open>
  Calls of \<^verbatim>\<open>loadSchema\<close> from several requests interleave at the two points where a load
  waits: for \<^verbatim>\<open>collection('_SCHEMA')\<close>, and for \<^verbatim>\<open>Schema.load\<close>, the read of the schema
  collection. The state keeps the load held in \<^verbatim>\<open>this.schemaPromise\<close>, the loads waiting
  for their collection, the loads reading, the callbacks chained on a load with
  \<^verbatim>\<open>then\<close> (load, caller, acceptor), for each caller the load whose outcome its promise
  takes, the outcomes of settled loads, the callers answered by their callback, and three
  counters: reads started, loads created, calls made. Loads and callers are numbered from 0
  in the order they appear. The class name \<^verbatim>\<open>_SCHEMA\<close> is taken to be valid.
\<close>

record loader =
  stored :: "nat option"
  lookups :: "nat list"
  reading :: "nat list"
  chained :: "(nat \<times> nat \<times> (schema \<Rightarrow> error + bool)) list"
  follows :: "(nat \<times> nat) list"
  settled :: "(nat \<times> (error + schema)) list"
  answers :: "(nat \<times> (error + schema)) list"
  reads :: nat
  loads :: nat
  calls :: nat







section \<open>Properties of schema loading\<close>












lemma loadSchema_resolved_unset:
  assumes "loadSchema env acceptor w = (Inr schema, w1)"
  shows "\<not> schemaPromise w1"
proof -
  have s: "\<not> schemaPromise w'" if "startLoad env w0 = (Inr x, w')" for w0 x w'
    using that by (auto simp: startLoad_def finishLoad_def split: sum.splits)
  show ?thesis
  proof (cases "schemaPromise w")
    case False
    with assms s show ?thesis by (simp add: loadSchema_def)
  next
    case True
    with assms have "and_then (finishLoad env)
            (\<lambda>schema. case acceptor schema of
                         Inl e \<Rightarrow> reject e
                       | Inr ok \<Rightarrow> if ok then resolve schema else startLoad env) w = (Inr schema, w1)"
      by (simp add: loadSchema_def)
    then show ?thesis
    proof (cases rule: and_then_cases)
      case (failed e)
      then show ?thesis by simp
    next
      case (passed x w2)
      from finishLoad_trace[OF passed(1)] have "\<not> schemaPromise w2" by simp
      with passed(2) s show ?thesis
        by (auto simp: reject_def resolve_def split: sum.splits if_splits)
    qed
  qed
qed

text \<open>
  Claim C4, as the code has it. After a load has resolved, \<^verbatim>\<open>this.schemaPromise\<close> is
  unset, so the next call with the default acceptor reads the schema collection again and
  resolves to what that read yields.
\<close>

theorem load_not_cached:
  assumes first: "loadSchema env acceptor w = (Inr schema, w1)"
      and valid: "classNameIsValid env ''_SCHEMA''"
  shows "loadSchema env returnsTrue w1
           = (schemaLoad env (trace w1),
              w1\<lparr>trace := trace w1 @ [SchemaLoad], schemaPromise := False\<rparr>)"
  using loadSchema_resolved_unset[OF first] valid
  by (simp add: loadSchema_def startLoad_def finishLoad_def collection_def)

text \<open>A store whose schema changes after the first read.\<close>

definition changing_env :: env where
  "changing_env =
     (stub_env (\<lambda>log c. Inr JNull))
       \<lparr>schemaLoad := (\<lambda>log. Inr (stub_schema\<lparr>hasKeys := (\<lambda>className keys. log \<noteq> [])\<rparr>))\<rparr>"

text \<open>
  Claim C4 as stated fails: of two loads in a row with the default acceptor, the second
  reads the schema collection again and returns the schema as it is then, not the first one.
\<close>

theorem second_load_reads_again_counterexample:
  "and_then (loadSchema changing_env returnsTrue) (\<lambda>first.
   and_then (loadSchema changing_env returnsTrue) (\<lambda>second.
     resolve (hasKeys first ''Post'' [Key ''title''], hasKeys second ''Post'' [Key ''title'']))) idle
   = (Inr (False, True), \<lparr>trace = [SchemaLoad, SchemaLoad], schemaPromise = False\<rparr>)"
  by (simp add: changing_env_def run_simps)

theorem load_not_cached_witness:
  "loadSchema changing_env returnsTrue \<lparr>trace = [SchemaLoad], schemaPromise = False\<rparr>
     = (schemaLoad changing_env [SchemaLoad],
        \<lparr>trace = [SchemaLoad, SchemaLoad], schemaPromise = False\<rparr>)"
proof -
  have first: "loadSchema changing_env returnsTrue idle
                 = (Inr (stub_schema\<lparr>hasKeys := (\<lambda>className keys. False)\<rparr>),
                    \<lparr>trace = [SchemaLoad], schemaPromise = False\<rparr>)"
    by (simp add: changing_env_def run_simps)
  have valid: "classNameIsValid changing_env ''_SCHEMA''"
    by (simp add: changing_env_def stub_env_def)
  from load_not_cached[OF first valid] show ?thesis by simp
qed

end
